theory Spec2Isabelle
  imports Complex_Main
begin

section \<open>Attack evaluation of the starter algo (python-algo/algo_strategy.py)\<close>

text \<open>
  The development embeds the attack-evaluation part of \<^verbatim>\<open>AlgoStrategy\<close>:
  \<^verbatim>\<open>total_target_health\<close>, \<^verbatim>\<open>gain_of_attack\<close>, \<^verbatim>\<open>filter_blocked_locations\<close>,
  \<^verbatim>\<open>attempt_to_attack\<close> and \<^verbatim>\<open>least_damage_spawn_location\<close>.

  Python numbers (the unit statistics and costs read from the game configuration, and
  everything computed from them) are modelled as exact rationals; counts of affordable
  units are Python integers and are modelled as \<open>int\<close>. Every exception the Python
  code can raise on these paths is a value of \<open>py_error\<close>, and a function that can
  raise returns \<open>py_error + 'a\<close>.
\<close>

subsection \<open>Data of the game library, as the strategy reads it\<close>

datatype py_error = ZeroDivisionError | TypeError | UnboundLocalError | ValueError | IndexError

datatype unit_type = WALL | FACTORY | TURRET | SCOUT | DEMOLISHER | INTERCEPTOR

datatype resource = SP | MP

datatype edge = TOP_RIGHT | TOP_LEFT | BOTTOM_LEFT | BOTTOM_RIGHT

type_synonym location = "int \<times> int"

text \<open>
  \<^verbatim>\<open>gamelib.GameUnit\<close>: the fields the strategy reads. \<open>damage_f\<close> is the damage a
  unit deals per frame to structures, \<open>damage_i\<close> the damage it deals to mobile units.
\<close>

record game_unit =
  player_index :: int
  health :: rat
  attackRange :: rat
  speed :: rat
  damage_f :: rat
  damage_i :: rat

text \<open>
  \<^verbatim>\<open>gamelib.GameState\<close> and its \<^verbatim>\<open>game_map\<close>: the library is not part of the
  repository's own code, so each query the strategy makes is a field of the state.
  \<open>config gs t\<close> stands for \<^verbatim>\<open>gamelib.GameUnit(t, game_state.config)\<close>,
  \<open>type_cost gs t MP\<close> for \<^verbatim>\<open>game_state.type_cost(t)[MP]\<close>,
  \<open>game_map gs l\<close> for \<^verbatim>\<open>game_state.game_map[l]\<close>.
\<close>

record game_state =
  config :: "unit_type \<Rightarrow> game_unit"
  number_affordable :: "unit_type \<Rightarrow> int"
  type_cost :: "unit_type \<Rightarrow> resource \<Rightarrow> rat"
  get_edge_locations :: "edge \<Rightarrow> location list"
  contains_stationary_unit :: "location \<Rightarrow> bool"
  find_path_to_edge :: "location \<Rightarrow> location list"
  get_attackers :: "location \<Rightarrow> int \<Rightarrow> game_unit list"
  get_locations_in_range :: "location \<Rightarrow> rat \<Rightarrow> location list"
  game_map :: "location \<Rightarrow> game_unit list"

text \<open>The policy constants set in \<^verbatim>\<open>on_game_start\<close>.\<close>

definition minGainPerSPSpent :: rat where
  "minGainPerSPSpent = 10"

definition weight_damage_enemy :: rat where
  "weight_damage_enemy = 1"

definition weight_score :: rat where
  "weight_score = 12"

subsection \<open>Python arithmetic that can raise\<close>

text \<open>\<^verbatim>\<open>a / b\<close>: raises on a zero divisor.\<close>

definition py_truediv :: "rat \<Rightarrow> rat \<Rightarrow> py_error + rat" where
  "py_truediv a b = (if b = 0 then Inl ZeroDivisionError else Inr (a / b))"

text \<open>\<^verbatim>\<open>a // b\<close>: the floor of the quotient; raises on a zero divisor.\<close>

definition py_floordiv :: "rat \<Rightarrow> rat \<Rightarrow> py_error + rat" where
  "py_floordiv a b = (if b = 0 then Inl ZeroDivisionError else Inr (of_int \<lfloor>a / b\<rfloor>))"

text \<open>\<^verbatim>\<open>int(x)\<close>: truncation towards zero.\<close>

definition py_int :: "rat \<Rightarrow> int" where
  "py_int x = (if 0 \<le> x then \<lfloor>x\<rfloor> else \<lceil>x\<rceil>)"

text \<open>\<^verbatim>\<open>range(k)\<close> has \<open>nat k\<close> elements: none when \<open>k \<le> 0\<close>.\<close>

definition range_len :: "int \<Rightarrow> nat" where
  "range_len k = nat k"

subsection \<open>\<^verbatim>\<open>total_target_health\<close>\<close>

text \<open>
  The inner loop over the units at one location: a unit of player 0 (the caller) is
  skipped, the health of any other unit is added.
\<close>

fun add_enemy_health :: "game_unit list \<Rightarrow> rat \<Rightarrow> rat" where
  "add_enemy_health [] total_health = total_health"
| "add_enemy_health (enemy_unit # us) total_health =
     (if player_index enemy_unit = 0 then add_enemy_health us total_health
      else add_enemy_health us (total_health + health enemy_unit))"

fun add_locations_health :: "game_state \<Rightarrow> location list \<Rightarrow> rat \<Rightarrow> rat" where
  "add_locations_health gs [] total_health = total_health"
| "add_locations_health gs (l # ls) total_health =
     add_locations_health gs ls (add_enemy_health (game_map gs l) total_health)"

definition total_target_health :: "game_state \<Rightarrow> location \<Rightarrow> rat \<Rightarrow> rat" where
  "total_target_health gs location unit_range =
     (let possible_locations = get_locations_in_range gs location unit_range
      in add_locations_health gs possible_locations 0)"

subsection \<open>\<^verbatim>\<open>gain_of_attack\<close>\<close>

text \<open>The three variables the frame loop updates.\<close>

record sim_state =
  damage_dealt :: rat
  total_heath :: rat
  remaining_units :: rat

text \<open>
  One pass through the body of \<^verbatim>\<open>for frame_index in range(...)\<close>. The floor division
  by the unit's health raises when that health is zero.
\<close>

definition frame_body ::
  "game_state \<Rightarrow> game_unit \<Rightarrow> location \<Rightarrow> nat \<Rightarrow> rat \<Rightarrow> rat \<Rightarrow> sim_state \<Rightarrow> py_error + sim_state"
where
  "frame_body gs unit_class path_location num_turrets turret_damage unit_health s =
     (let total_damage = damage_f unit_class * remaining_units s;
          dd = damage_dealt s
                 + min total_damage
                       (total_target_health gs path_location (attackRange unit_class));
          th = total_heath s - of_nat num_turrets * turret_damage
      in case py_floordiv th unit_health of
           Inl e \<Rightarrow> Inl e
         | Inr q \<Rightarrow> Inr \<lparr>damage_dealt = dd, total_heath = th, remaining_units = q + 1\<rparr>)"

text \<open>The frame loop, run \<open>k\<close> times from state \<open>s\<close>.\<close>

fun frame_loop ::
  "nat \<Rightarrow> game_state \<Rightarrow> game_unit \<Rightarrow> location \<Rightarrow> nat \<Rightarrow> rat \<Rightarrow> rat \<Rightarrow> sim_state \<Rightarrow> py_error + sim_state"
where
  "frame_loop 0 gs unit_class path_location num_turrets turret_damage unit_health s = Inr s"
| "frame_loop (Suc k) gs unit_class path_location num_turrets turret_damage unit_health s =
     (case frame_body gs unit_class path_location num_turrets turret_damage unit_health s of
        Inl e \<Rightarrow> Inl e
      | Inr s' \<Rightarrow> frame_loop k gs unit_class path_location num_turrets turret_damage unit_health s')"

text \<open>
  \<^verbatim>\<open>gain_of_attack\<close>. The \<^verbatim>\<open>return\<close> is inside the body of
  \<^verbatim>\<open>for path_location in path\<close>, so the function returns at the end of the first
  iteration; on an empty path the loop body never runs and the function ends without a
  \<^verbatim>\<open>return\<close>, that is, it returns \<^verbatim>\<open>None\<close> (here \<open>Inr None\<close>).
  \<^verbatim>\<open>1/(unit_class.speed)\<close> is evaluated inside the outer loop and raises on speed zero.
\<close>

definition gain_of_attack ::
  "game_state \<Rightarrow> int \<Rightarrow> unit_type \<Rightarrow> location \<Rightarrow> py_error + rat option"
where
  "gain_of_attack gs number_units unit_type location =
     (let path = find_path_to_edge gs location;
          turret_damage = damage_i (config gs TURRET);
          unit_class = config gs unit_type;
          unit_health = health unit_class;
          s0 = \<lparr>damage_dealt = 0,
                total_heath = unit_health * of_int number_units,
                remaining_units = of_int number_units\<rparr>
      in case path of
           [] \<Rightarrow> Inr None
         | path_location # _ \<Rightarrow>
             (let num_turrets = length (get_attackers gs path_location 0)
              in case py_truediv 1 (speed unit_class) of
                   Inl e \<Rightarrow> Inl e
                 | Inr r \<Rightarrow>
                     (case frame_loop (range_len (py_int r)) gs unit_class path_location
                             num_turrets turret_damage unit_health s0 of
                        Inl e \<Rightarrow> Inl e
                      | Inr s \<Rightarrow>
                          Inr (Some (damage_dealt s * weight_damage_enemy
                                     + remaining_units s * weight_score)))))"

subsection \<open>\<^verbatim>\<open>filter_blocked_locations\<close>\<close>

fun filter_loop :: "location list \<Rightarrow> game_state \<Rightarrow> location list \<Rightarrow> location list" where
  "filter_loop [] gs filtered = filtered"
| "filter_loop (location # ls) gs filtered =
     (if \<not> contains_stationary_unit gs location then filter_loop ls gs (filtered @ [location])
      else filter_loop ls gs filtered)"

definition filter_blocked_locations :: "location list \<Rightarrow> game_state \<Rightarrow> location list" where
  "filter_blocked_locations locations gs = filter_loop locations gs []"

subsection \<open>\<^verbatim>\<open>attempt_to_attack\<close>\<close>

text \<open>
  The variables the candidate loop tracks. \<^verbatim>\<open>scout_deploy_location\<close> and
  \<^verbatim>\<open>demolisher_deploy_location\<close> are first assigned inside the loop: \<open>None\<close> is the
  unbound local variable. The two interceptor lists have two slots each.
\<close>

record tracker =
  scout_gain :: rat
  scout_deploy_location :: "location option"
  demolisher_gain :: rat
  demolisher_deploy_location :: "location option"
  interceptor_gains :: "rat list"
  interceptor_deploy_locations :: "location list"

definition init_tracker :: tracker where
  "init_tracker =
     \<lparr>scout_gain = - 999, scout_deploy_location = None,
      demolisher_gain = - 999, demolisher_deploy_location = None,
      interceptor_gains = [- 999, - 999],
      interceptor_deploy_locations = [(0, 0), (0, 0)]\<rparr>"

text \<open>
  The three \<^verbatim>\<open>if\<close> statements of the loop body. Comparing \<^verbatim>\<open>None\<close> (the gain of an
  empty path) with a number raises \<^verbatim>\<open>TypeError\<close>.
\<close>

definition update_scout :: "location \<Rightarrow> rat option \<Rightarrow> tracker \<Rightarrow> py_error + tracker" where
  "update_scout location gain_location_scout tr =
     (case gain_location_scout of
        None \<Rightarrow> Inl TypeError
      | Some g \<Rightarrow>
          Inr (if g > scout_gain tr
               then tr\<lparr>scout_deploy_location := Some location, scout_gain := g\<rparr>
               else tr))"

definition update_demolisher :: "location \<Rightarrow> rat option \<Rightarrow> tracker \<Rightarrow> py_error + tracker" where
  "update_demolisher location gain_location_demolisher tr =
     (case gain_location_demolisher of
        None \<Rightarrow> Inl TypeError
      | Some g \<Rightarrow>
          Inr (if g > demolisher_gain tr
               then tr\<lparr>demolisher_deploy_location := Some location, demolisher_gain := g\<rparr>
               else tr))"

definition update_interceptor :: "location \<Rightarrow> rat option \<Rightarrow> tracker \<Rightarrow> py_error + tracker" where
  "update_interceptor location gain_location_interceptor tr =
     (case gain_location_interceptor of
        None \<Rightarrow> Inl TypeError
      | Some g \<Rightarrow>
          Inr (if g > interceptor_gains tr ! 0
               then tr\<lparr>interceptor_gains :=
                          ((interceptor_gains tr)[1 := interceptor_gains tr ! 0])[0 := g],
                        interceptor_deploy_locations :=
                          ((interceptor_deploy_locations tr)
                             [1 := interceptor_deploy_locations tr ! 0])[0 := location]\<rparr>
               else if g > interceptor_gains tr ! 1
               then tr\<lparr>interceptor_gains := (interceptor_gains tr)[1 := g],
                        interceptor_deploy_locations :=
                          (interceptor_deploy_locations tr)[1 := location]\<rparr>
               else tr))"

text \<open>One pass through the body of \<^verbatim>\<open>for location in deploy_locations\<close>.\<close>

definition loop_body ::
  "game_state \<Rightarrow> int \<Rightarrow> int \<Rightarrow> int \<Rightarrow> location \<Rightarrow> tracker \<Rightarrow> py_error + tracker"
where
  "loop_body gs max_scout_spawn max_demolisher_spawn max_interceptor_spawn location tr =
     (case gain_of_attack gs max_scout_spawn SCOUT location of
        Inl e \<Rightarrow> Inl e
      | Inr gain_location_scout \<Rightarrow>
     (case gain_of_attack gs max_demolisher_spawn DEMOLISHER location of
        Inl e \<Rightarrow> Inl e
      | Inr gain_location_demolisher \<Rightarrow>
     (case gain_of_attack gs max_interceptor_spawn INTERCEPTOR location of
        Inl e \<Rightarrow> Inl e
      | Inr gain_location_interceptor \<Rightarrow>
     (case update_scout location gain_location_scout tr of
        Inl e \<Rightarrow> Inl e
      | Inr tr1 \<Rightarrow>
     (case update_demolisher location gain_location_demolisher tr1 of
        Inl e \<Rightarrow> Inl e
      | Inr tr2 \<Rightarrow> update_interceptor location gain_location_interceptor tr2)))))"

fun candidate_loop ::
  "game_state \<Rightarrow> int \<Rightarrow> int \<Rightarrow> int \<Rightarrow> location list \<Rightarrow> tracker \<Rightarrow> py_error + tracker"
where
  "candidate_loop gs max_scout_spawn max_demolisher_spawn max_interceptor_spawn [] tr = Inr tr"
| "candidate_loop gs max_scout_spawn max_demolisher_spawn max_interceptor_spawn (location # ls) tr =
     (case loop_body gs max_scout_spawn max_demolisher_spawn max_interceptor_spawn location tr of
        Inl e \<Rightarrow> Inl e
      | Inr tr' \<Rightarrow>
          candidate_loop gs max_scout_spawn max_demolisher_spawn max_interceptor_spawn ls tr')"

text \<open>
  A call \<^verbatim>\<open>game_state.attempt_spawn(unit_type, location, num)\<close>. The function's effect on
  the game is the sequence of these calls.
\<close>

datatype spawn = Spawn unit_type location int

text \<open>
  \<^verbatim>\<open>int(interceptor_deploy_locations[0] == demolisher_deploy_location)\<close>; reading the
  demolisher location raises when the loop never assigned it.
\<close>

definition location_index_of :: "tracker \<Rightarrow> py_error + nat" where
  "location_index_of tr =
     (case demolisher_deploy_location tr of
        None \<Rightarrow> Inl UnboundLocalError
      | Some dl \<Rightarrow> Inr (if interceptor_deploy_locations tr ! 0 = dl then 1 else 0))"

definition spawn_scouts :: "tracker \<Rightarrow> int \<Rightarrow> py_error + spawn list" where
  "spawn_scouts tr max_scout_spawn =
     (case scout_deploy_location tr of
        None \<Rightarrow> Inl UnboundLocalError
      | Some sl \<Rightarrow> Inr [Spawn SCOUT sl max_scout_spawn])"

definition spawn_combo :: "tracker \<Rightarrow> nat \<Rightarrow> int \<Rightarrow> int \<Rightarrow> py_error + spawn list" where
  "spawn_combo tr location_index max_demolisher_spawn max_interceptor_spawn =
     (case demolisher_deploy_location tr of
        None \<Rightarrow> Inl UnboundLocalError
      | Some dl \<Rightarrow>
          Inr [Spawn DEMOLISHER dl max_demolisher_spawn,
               Spawn INTERCEPTOR (interceptor_deploy_locations tr ! location_index)
                 max_interceptor_spawn])"

text \<open>The final \<^verbatim>\<open>if\<close>/\<^verbatim>\<open>elif\<close> chain on the two normalised gains.\<close>

definition commit ::
  "tracker \<Rightarrow> nat \<Rightarrow> int \<Rightarrow> int \<Rightarrow> int \<Rightarrow> rat \<Rightarrow> rat \<Rightarrow> py_error + spawn list"
where
  "commit tr location_index max_scout_spawn max_demolisher_spawn max_interceptor_spawn
          opt1_gain opt2_gain =
     (if opt1_gain \<ge> minGainPerSPSpent \<and> opt2_gain \<ge> minGainPerSPSpent then
        (if opt1_gain \<ge> opt2_gain then spawn_scouts tr max_scout_spawn
         else spawn_combo tr location_index max_demolisher_spawn max_interceptor_spawn)
      else if opt1_gain \<ge> minGainPerSPSpent then spawn_scouts tr max_scout_spawn
      else if opt2_gain \<ge> minGainPerSPSpent then
        spawn_combo tr location_index max_demolisher_spawn max_interceptor_spawn
      else Inr [])"

text \<open>The two normalised gains, in the order the code computes them.\<close>

definition opt1_gain_of :: "game_state \<Rightarrow> tracker \<Rightarrow> int \<Rightarrow> py_error + rat" where
  "opt1_gain_of gs tr max_scout_spawn =
     py_truediv (scout_gain tr) (type_cost gs SCOUT MP * of_int max_scout_spawn)"

definition opt2_gain_of :: "game_state \<Rightarrow> tracker \<Rightarrow> nat \<Rightarrow> int \<Rightarrow> int \<Rightarrow> py_error + rat" where
  "opt2_gain_of gs tr location_index max_demolisher_spawn max_interceptor_spawn =
     py_truediv (demolisher_gain tr + interceptor_gains tr ! location_index)
       (type_cost gs DEMOLISHER MP * of_int max_demolisher_spawn
        + type_cost gs INTERCEPTOR MP * of_int max_interceptor_spawn)"

definition deploy_locations_of :: "game_state \<Rightarrow> location list" where
  "deploy_locations_of gs =
     (let friendly_edges = get_edge_locations gs BOTTOM_LEFT @ get_edge_locations gs BOTTOM_RIGHT
      in filter_blocked_locations friendly_edges gs)"

definition attempt_to_attack :: "game_state \<Rightarrow> py_error + spawn list" where
  "attempt_to_attack gs =
     (let max_scout_spawn = number_affordable gs SCOUT;
          max_interceptor_spawn = number_affordable gs INTERCEPTOR div 2;
          max_demolisher_spawn = number_affordable gs DEMOLISHER div 2;
          deploy_locations = deploy_locations_of gs
      in case candidate_loop gs max_scout_spawn max_demolisher_spawn max_interceptor_spawn
                deploy_locations init_tracker of
           Inl e \<Rightarrow> Inl e
         | Inr tr \<Rightarrow>
        (case opt1_gain_of gs tr max_scout_spawn of
           Inl e \<Rightarrow> Inl e
         | Inr opt1_gain \<Rightarrow>
        (case location_index_of tr of
           Inl e \<Rightarrow> Inl e
         | Inr location_index \<Rightarrow>
        (case opt2_gain_of gs tr location_index max_demolisher_spawn max_interceptor_spawn of
           Inl e \<Rightarrow> Inl e
         | Inr opt2_gain \<Rightarrow>
             commit tr location_index max_scout_spawn max_demolisher_spawn
               max_interceptor_spawn opt1_gain opt2_gain))))"

subsection \<open>\<^verbatim>\<open>least_damage_spawn_location\<close>\<close>

text \<open>The inner loop: the damage estimate of one path, accumulated cell by cell.\<close>

fun path_damage_loop :: "game_state \<Rightarrow> location list \<Rightarrow> rat \<Rightarrow> rat" where
  "path_damage_loop gs [] damage = damage"
| "path_damage_loop gs (path_location # ps) damage =
     path_damage_loop gs ps
       (damage + of_nat (length (get_attackers gs path_location 0)) * damage_i (config gs TURRET))"

text \<open>The outer loop: one estimate appended per location option.\<close>

fun damages_loop :: "game_state \<Rightarrow> location list \<Rightarrow> rat list \<Rightarrow> rat list" where
  "damages_loop gs [] damages = damages"
| "damages_loop gs (location # ls) damages =
     damages_loop gs ls (damages @ [path_damage_loop gs (find_path_to_edge gs location) 0])"

text \<open>\<^verbatim>\<open>min(xs)\<close> of a list: raises \<^verbatim>\<open>ValueError\<close> on the empty list.\<close>

fun min_from :: "rat list \<Rightarrow> rat \<Rightarrow> rat" where
  "min_from [] m = m"
| "min_from (y # ys) m = min_from ys (if y < m then y else m)"

fun py_min :: "rat list \<Rightarrow> py_error + rat" where
  "py_min [] = Inl ValueError"
| "py_min (x # xs) = Inr (min_from xs x)"

text \<open>\<^verbatim>\<open>xs.index(v)\<close>: the first position of \<open>v\<close>; raises \<^verbatim>\<open>ValueError\<close> when absent.\<close>

fun py_index :: "rat list \<Rightarrow> rat \<Rightarrow> py_error + nat" where
  "py_index [] v = Inl ValueError"
| "py_index (x # xs) v =
     (if x = v then Inr 0
      else case py_index xs v of Inl e \<Rightarrow> Inl e | Inr i \<Rightarrow> Inr (Suc i))"

definition least_damage_spawn_location :: "game_state \<Rightarrow> location list \<Rightarrow> py_error + location" where
  "least_damage_spawn_location gs location_options =
     (let damages = damages_loop gs location_options []
      in case py_min damages of
           Inl e \<Rightarrow> Inl e
         | Inr m \<Rightarrow>
             (case py_index damages m of
                Inl e \<Rightarrow> Inl e
              | Inr i \<Rightarrow>
                  (if i < length location_options then Inr (location_options ! i)
                   else Inl IndexError)))"

subsection \<open>The combat simulator as the specification words it\<close>

text \<open>
  Section 4.2 of the specification, the target-health aggregator, worded on its own: the
  units on all board cells within the given range of the location, the caller's own units
  (player 0) excluded, and the sum of their health; 0 when no opposing unit is in range.
\<close>

definition spec_total_opposing_health_in_range :: "game_state \<Rightarrow> location \<Rightarrow> rat \<Rightarrow> rat" where
  "spec_total_opposing_health_in_range gs location unit_range =
     sum_list (map health
       (filter (\<lambda>u. player_index u \<noteq> 0)
          (concat (map (game_map gs) (get_locations_in_range gs location unit_range)))))"

text \<open>
  Section 4.3 of the specification, step 3 and 4, for one cell: the sub-frame update
  (a) to (d) on the triple (damage dealt, total health, remaining units), repeated
  \<open>floor(1 / speed)\<close> times from the initial squad, and the gain of the outcome with the
  specification's weights 1 and 12. It is compared with \<open>gain_of_attack\<close> below.
\<close>

definition spec_sub_frame ::
  "game_state \<Rightarrow> game_unit \<Rightarrow> location \<Rightarrow> rat \<times> rat \<times> rat \<Rightarrow> rat \<times> rat \<times> rat"
where
  "spec_sub_frame gs unitType cell =
     (\<lambda>(damageDealt, totalHealth, remainingUnits).
        let damageThisFrame = damage_f unitType * remainingUnits;
            damageDealt' = damageDealt
               + min damageThisFrame
                     (spec_total_opposing_health_in_range gs cell (attackRange unitType));
            totalHealth' = totalHealth
               - of_nat (length (get_attackers gs cell 0)) * damage_i (config gs TURRET);
            remainingUnits' = of_int \<lfloor>totalHealth' / health unitType\<rfloor> + 1
        in (damageDealt', totalHealth', remainingUnits'))"

definition spec_gain_first_cell :: "game_state \<Rightarrow> int \<Rightarrow> unit_type \<Rightarrow> location \<Rightarrow> rat" where
  "spec_gain_first_cell gs candidateCount ut cell =
     (let unitType = config gs ut;
          subFramesPerCell = nat \<lfloor>1 / speed unitType\<rfloor>
      in case (spec_sub_frame gs unitType cell ^^ subFramesPerCell)
                (0, health unitType * of_int candidateCount, of_int candidateCount) of
           (damageDealt, totalHealth, remainingUnits) \<Rightarrow>
             damageDealt * 1 + remainingUnits * 12)"

text \<open>
  Section 4.1 of the specification, the path-damage estimate of a location: over the cells
  of its path, the number of defenders able to fire on the cell times the defenders'
  per-shot damage, summed; 0 for an empty path.
\<close>

definition estimate_path_damage :: "game_state \<Rightarrow> location \<Rightarrow> rat" where
  "estimate_path_damage gs location =
     sum_list (map (\<lambda>cell. of_nat (length (get_attackers gs cell 0)) * damage_i (config gs TURRET))
                   (find_path_to_edge gs location))"

subsection \<open>The invariant of the interceptor ranking\<close>

text \<open>
  The loop invariant of the two interceptor slots, after the candidates \<open>P\<close> have been
  processed with interceptor count \<open>n\<close>: both lists have two entries, the gains are
  ordered, every processed candidate has a gain no larger than slot 0's, and no larger than
  slot 1's unless it is slot 0's location; each slot holds either the initial placeholder
  (\<open>(0, 0)\<close> with gain \<open>- 999\<close>) or the first processed candidate of its gain, every
  earlier one (other than slot 0's location, for slot 1) having a strictly smaller gain.
\<close>

definition slots_inv :: "game_state \<Rightarrow> int \<Rightarrow> location list \<Rightarrow> tracker \<Rightarrow> bool" where
  "slots_inv gs n P tr \<longleftrightarrow>
     (\<exists>g0 g1 l0 l1.
        interceptor_gains tr = [g0, g1] \<and> interceptor_deploy_locations tr = [l0, l1]
      \<and> - 999 \<le> g1 \<and> g1 \<le> g0
      \<and> (\<forall>x\<in>set P. \<exists>g. gain_of_attack gs n INTERCEPTOR x = Inr (Some g)
                          \<and> g \<le> g0 \<and> (x \<noteq> l0 \<longrightarrow> g \<le> g1))
      \<and> ((g0 = - 999 \<and> l0 = (0, 0))
          \<or> (\<exists>i<length P. P ! i = l0
                \<and> gain_of_attack gs n INTERCEPTOR l0 = Inr (Some g0)
                \<and> (\<forall>j<i. \<forall>g. gain_of_attack gs n INTERCEPTOR (P ! j) = Inr (Some g) \<longrightarrow> g < g0)))
      \<and> ((g1 = - 999 \<and> l1 = (0, 0))
          \<or> (\<exists>i<length P. P ! i = l1 \<and> l1 \<noteq> l0
                \<and> gain_of_attack gs n INTERCEPTOR l1 = Inr (Some g1)
                \<and> (\<forall>j<i. P ! j \<noteq> l0 \<longrightarrow>
                      (\<forall>g. gain_of_attack gs n INTERCEPTOR (P ! j) = Inr (Some g) \<longrightarrow> g < g1)))))"

subsection \<open>Example game states\<close>

text \<open>
  Unit statistics and costs of a standard game configuration, the four map edges, and a
  few states built from them: they are the concrete inputs of the evaluations below.
\<close>

fun demo_config :: "unit_type \<Rightarrow> game_unit" where
  "demo_config WALL =
     \<lparr>player_index = 0, health = 60, attackRange = 0, speed = 0, damage_f = 0, damage_i = 0\<rparr>"
| "demo_config FACTORY =
     \<lparr>player_index = 0, health = 30, attackRange = 0, speed = 0, damage_f = 0, damage_i = 0\<rparr>"
| "demo_config TURRET =
     \<lparr>player_index = 0, health = 75, attackRange = 5 / 2, speed = 0, damage_f = 0, damage_i = 5\<rparr>"
| "demo_config SCOUT =
     \<lparr>player_index = 0, health = 15, attackRange = 7 / 2, speed = 1, damage_f = 2, damage_i = 2\<rparr>"
| "demo_config DEMOLISHER =
     \<lparr>player_index = 0, health = 5, attackRange = 9 / 2, speed = 1 / 2, damage_f = 8, damage_i = 8\<rparr>"
| "demo_config INTERCEPTOR =
     \<lparr>player_index = 0, health = 40, attackRange = 9 / 2, speed = 1 / 4, damage_f = 0, damage_i = 20\<rparr>"

fun demo_cost :: "unit_type \<Rightarrow> resource \<Rightarrow> rat" where
  "demo_cost SCOUT MP = 1"
| "demo_cost DEMOLISHER MP = 3"
| "demo_cost INTERCEPTOR MP = 1"
| "demo_cost WALL SP = 1"
| "demo_cost FACTORY SP = 9"
| "demo_cost TURRET SP = 2"
| "demo_cost _ _ = 0"

fun demo_edges :: "edge \<Rightarrow> location list" where
  "demo_edges BOTTOM_LEFT = map (\<lambda>n. (13 - int n, int n)) [0..<14]"
| "demo_edges BOTTOM_RIGHT = map (\<lambda>n. (14 + int n, int n)) [0..<14]"
| "demo_edges TOP_LEFT = map (\<lambda>n. (13 - int n, 27 - int n)) [0..<14]"
| "demo_edges TOP_RIGHT = map (\<lambda>n. (14 + int n, 27 - int n)) [0..<14]"

definition enemy_wall :: game_unit where
  "enemy_wall = (demo_config WALL)\<lparr>player_index := 1\<rparr>"

definition enemy_turret :: game_unit where
  "enemy_turret = (demo_config TURRET)\<lparr>player_index := 1\<rparr>"

text \<open>
  Five mobile points in hand (five scouts or interceptors, one demolisher), nothing on
  the board: no cell is blocked, no defender covers any cell, no unit is in range.
\<close>

definition quiet_state :: game_state where
  "quiet_state =
     \<lparr>config = demo_config,
      number_affordable =
        (\<lambda>t. if t = SCOUT \<or> t = INTERCEPTOR then 5 else if t = DEMOLISHER then 1 else 0),
      type_cost = demo_cost,
      get_edge_locations = demo_edges,
      contains_stationary_unit = (\<lambda>l. False),
      find_path_to_edge = (\<lambda>l. [l, (fst l, snd l + 1)]),
      get_attackers = (\<lambda>l p. []),
      get_locations_in_range = (\<lambda>l r. [l, (fst l, snd l + 1)]),
      game_map = (\<lambda>l. [])\<rparr>"

text \<open>One enemy turret covers every cell, and an enemy wall stands at \<open>(13, 1)\<close>.\<close>

definition skirmish_state :: game_state where
  "skirmish_state =
     quiet_state\<lparr>get_attackers := (\<lambda>l p. [enemy_turret]),
                 game_map := (\<lambda>l. if l = (13, 1) then [enemy_wall] else [])\<rparr>"

text \<open>Seven enemy turrets cover every cell.\<close>

definition siege_state :: game_state where
  "siege_state = quiet_state\<lparr>get_attackers := (\<lambda>l p. replicate 7 enemy_turret)\<rparr>"

text \<open>No mobile points: no unit of any type is affordable.\<close>

definition broke_state :: game_state where
  "broke_state = quiet_state\<lparr>number_affordable := (\<lambda>t. 0)\<rparr>"

text \<open>Every friendly edge cell holds a structure.\<close>

definition blocked_state :: game_state where
  "blocked_state = quiet_state\<lparr>contains_stationary_unit := (\<lambda>l. True)\<rparr>"

text \<open>The pathfinder finds no route from any cell.\<close>

definition no_path_state :: game_state where
  "no_path_state = quiet_state\<lparr>find_path_to_edge := (\<lambda>l. [])\<rparr>"

text \<open>An enemy wall stands at \<open>(13, 1)\<close>; no defender covers any cell.\<close>

definition outpost_state :: game_state where
  "outpost_state = quiet_state\<lparr>game_map := (\<lambda>l. if l = (13, 1) then [enemy_wall] else [])\<rparr>"

text \<open>Two enemy turrets cover every cell of the left half, one every cell of the right half.\<close>

definition flank_state :: game_state where
  "flank_state =
     quiet_state\<lparr>get_attackers :=
        (\<lambda>l p. if fst l \<le> 13 then [enemy_turret, enemy_turret] else [enemy_turret])\<rparr>"



section \<open>Properties\<close>

subsection \<open>Target health and the frame loop\<close>

lemma floor_rat_divide_numeral [simp]:
  "\<lfloor>numeral a / numeral b :: rat\<rfloor> = numeral a div numeral b"
  by (metis floor_divide_of_int_eq of_int_numeral)

lemma floor_rat_minus_divide_numeral [simp]:
  "\<lfloor>- (numeral a / numeral b) :: rat\<rfloor> = - numeral a div numeral b"
  by (metis divide_minus_left floor_divide_of_int_eq of_int_neg_numeral of_int_numeral)

lemma floor_plus_one_nonneg:
  fixes x :: rat
  shows "(0 \<le> of_int \<lfloor>x\<rfloor> + (1::rat)) = (- 1 \<le> x)"
proof -
  have "(0 \<le> of_int \<lfloor>x\<rfloor> + (1::rat)) = ((0::rat) \<le> of_int (\<lfloor>x\<rfloor> + 1))" by simp
  also have "\<dots> = (0 \<le> \<lfloor>x\<rfloor> + 1)" by (simp only: of_int_0_le_iff)
  also have "\<dots> = (- 1 \<le> \<lfloor>x\<rfloor>)" by arith
  also have "\<dots> = (of_int (- 1) \<le> x)" by (rule le_floor_iff)
  finally show ?thesis by simp
qed

lemma add_enemy_health_own:
  "\<forall>u \<in> set us. player_index u = 0 \<Longrightarrow> add_enemy_health us t = t"
  by (induction us arbitrary: t) auto

lemma add_locations_health_own:
  "\<forall>l \<in> set ls. \<forall>u \<in> set (game_map gs l). player_index u = 0 \<Longrightarrow>
   add_locations_health gs ls t = t"
  by (induction ls arbitrary: t) (auto simp: add_enemy_health_own)

lemma total_target_health_none:
  "\<forall>l \<in> set (get_locations_in_range gs c r). \<forall>u \<in> set (game_map gs l). player_index u = 0 \<Longrightarrow>
   total_target_health gs c r = 0"
  by (simp add: total_target_health_def add_locations_health_own)

lemma range_len_py_int: "range_len (py_int x) = nat \<lfloor>x\<rfloor>"
  by (auto simp: range_len_def py_int_def)

lemma frames_pos_iff:
  "v \<noteq> 0 \<Longrightarrow> (0 < range_len (py_int (1 / v))) = (0 < v \<and> v \<le> 1)"
  apply (simp add: range_len_py_int)
  by (metis dual_order.trans le_divide_eq_1_pos order_le_imp_less_or_eq
    zero_le_divide_1_iff zero_le_one)

text \<open>frame loop: closed form of total health and remaining units\<close>

lemma frame_body_ok:
  "h \<noteq> 0 \<Longrightarrow> frame_body gs uc c nt td h s =
     Inr \<lparr>damage_dealt = damage_dealt s + min (damage_f uc * remaining_units s)
                              (total_target_health gs c (attackRange uc)),
          total_heath = total_heath s - of_nat nt * td,
          remaining_units = of_int \<lfloor>(total_heath s - of_nat nt * td) / h\<rfloor> + 1\<rparr>"
  by (simp add: frame_body_def py_floordiv_def Let_def)

lemma frame_loop_Suc_end:
  "h \<noteq> 0 \<Longrightarrow> frame_loop (Suc k) gs uc c nt td h s =
     (case frame_loop k gs uc c nt td h s of Inl e \<Rightarrow> Inl e
      | Inr s' \<Rightarrow> frame_body gs uc c nt td h s')"
proof (induction k arbitrary: s)
  case 0
  then show ?case by (simp add: frame_body_ok)
next
  case (Suc k)
  obtain m where m: "frame_body gs uc c nt td h s = Inr m"
    using Suc.prems by (simp add: frame_body_ok)
  have "frame_loop (Suc (Suc k)) gs uc c nt td h s = frame_loop (Suc k) gs uc c nt td h m"
    using m by simp
  also have "\<dots> = (case frame_loop k gs uc c nt td h m of Inl e \<Rightarrow> Inl e
      | Inr s' \<Rightarrow> frame_body gs uc c nt td h s')"
    using Suc.IH[OF Suc.prems] .
  also have "frame_loop k gs uc c nt td h m = frame_loop (Suc k) gs uc c nt td h s"
    using m by simp
  finally show ?case .
qed

lemma frame_loop_total:
  "h \<noteq> 0 \<Longrightarrow> \<exists>s'. frame_loop k gs uc c nt td h s = Inr s'"
  by (induction k arbitrary: s) (auto simp: frame_body_ok)

lemma frame_loop_health:
  "h \<noteq> 0 \<Longrightarrow> frame_loop k gs uc c nt td h s = Inr s' \<Longrightarrow>
   total_heath s' = total_heath s - of_nat k * (of_nat nt * td)"
proof (induction k arbitrary: s)
  case 0
  then show ?case by simp
next
  case (Suc k)
  let ?m = "\<lparr>damage_dealt = damage_dealt s + min (damage_f uc * remaining_units s)
                              (total_target_health gs c (attackRange uc)),
          total_heath = total_heath s - of_nat nt * td,
          remaining_units = of_int \<lfloor>(total_heath s - of_nat nt * td) / h\<rfloor> + 1\<rparr>"
  have "frame_loop k gs uc c nt td h ?m = Inr s'"
    using Suc.prems by (simp add: frame_body_ok)
  then have "total_heath s' = total_heath ?m - of_nat k * (of_nat nt * td)"
    using Suc.IH Suc.prems(1) by blast
  then show ?case by (simp add: algebra_simps)
qed

lemma frame_loop_remaining:
  "h \<noteq> 0 \<Longrightarrow> frame_loop (Suc k) gs uc c nt td h s = Inr s' \<Longrightarrow>
   remaining_units s' = of_int \<lfloor>(total_heath s - of_nat (Suc k) * (of_nat nt * td)) / h\<rfloor> + 1"
proof -
  assume h: "h \<noteq> 0" and r: "frame_loop (Suc k) gs uc c nt td h s = Inr s'"
  obtain m where m: "frame_loop k gs uc c nt td h s = Inr m"
    using frame_loop_total[OF h] by blast
  have th: "total_heath m = total_heath s - of_nat k * (of_nat nt * td)"
    using frame_loop_health[OF h m] .
  have "frame_body gs uc c nt td h m = Inr s'"
    using r m frame_loop_Suc_end[OF h, of k gs uc c nt td s] by simp
  then have "remaining_units s' = of_int \<lfloor>(total_heath m - of_nat nt * td) / h\<rfloor> + 1"
    using h by (auto simp: frame_body_ok)
  moreover have "total_heath m - of_nat nt * td = total_heath s - of_nat (Suc k) * (of_nat nt * td)"
    unfolding th by (simp add: algebra_simps)
  ultimately show ?thesis by simp
qed


lemma frame_loop_steady:
  "h \<noteq> 0 \<Longrightarrow> of_nat nt * td = 0 \<Longrightarrow>
   frame_loop (Suc j) gs uc c nt td h s =
     Inr \<lparr>damage_dealt = damage_dealt s
             + min (damage_f uc * remaining_units s) (total_target_health gs c (attackRange uc))
             + of_nat j * min (damage_f uc * (of_int \<lfloor>total_heath s / h\<rfloor> + 1))
                              (total_target_health gs c (attackRange uc)),
          total_heath = total_heath s,
          remaining_units = of_int \<lfloor>total_heath s / h\<rfloor> + 1\<rparr>"
proof (induction j arbitrary: s)
  case 0
  then show ?case by (auto simp add: frame_body_ok)
next
  case (Suc j)
  have z: "total_heath s - of_nat nt * td = total_heath s" using Suc.prems(2) by simp
  let ?m = "\<lparr>damage_dealt = damage_dealt s + min (damage_f uc * remaining_units s)
                              (total_target_health gs c (attackRange uc)),
          total_heath = total_heath s - of_nat nt * td,
          remaining_units = of_int \<lfloor>(total_heath s - of_nat nt * td) / h\<rfloor> + 1\<rparr>"
  have "frame_loop (Suc (Suc j)) gs uc c nt td h s = frame_loop (Suc j) gs uc c nt td h ?m"
    using Suc.prems(1) by (simp add: frame_body_ok)
  also have "\<dots> = Inr \<lparr>damage_dealt = damage_dealt ?m
             + min (damage_f uc * remaining_units ?m) (total_target_health gs c (attackRange uc))
             + of_nat j * min (damage_f uc * (of_int \<lfloor>total_heath ?m / h\<rfloor> + 1))
                              (total_target_health gs c (attackRange uc)),
          total_heath = total_heath ?m,
          remaining_units = of_int \<lfloor>total_heath ?m / h\<rfloor> + 1\<rparr>"
    using Suc.IH[OF Suc.prems] .
  finally show ?case using Suc.prems(2) by (auto simp add: algebra_simps)
qed

subsection \<open>The simulator evaluates the first path cell only\<close>

lemma add_enemy_health_sum:
  "add_enemy_health us t = t + sum_list (map health (filter (\<lambda>u. player_index u \<noteq> 0) us))"
  by (induction us arbitrary: t) auto

lemma add_locations_health_sum:
  "add_locations_health gs ls t =
     t + sum_list (map health (filter (\<lambda>u. player_index u \<noteq> 0) (concat (map (game_map gs) ls))))"
  by (induction ls arbitrary: t) (auto simp add: add_enemy_health_sum)

lemma total_target_health_spec:
  "total_target_health gs location unit_range
     = spec_total_opposing_health_in_range gs location unit_range"
  by (simp add: total_target_health_def spec_total_opposing_health_in_range_def
      add_locations_health_sum)

lemma frame_loop_spec:
  "health uc \<noteq> 0 \<Longrightarrow>
   frame_loop k gs uc c (length (get_attackers gs c 0)) (damage_i (config gs TURRET)) (health uc) s
     = Inr (case (spec_sub_frame gs uc c ^^ k) (damage_dealt s, total_heath s, remaining_units s) of
              (d, t, r) \<Rightarrow> \<lparr>damage_dealt = d, total_heath = t, remaining_units = r\<rparr>)"
proof (induction k arbitrary: s)
  case 0
  then show ?case by simp
next
  case (Suc k)
  let ?m = "\<lparr>damage_dealt = damage_dealt s + min (damage_f uc * remaining_units s)
                              (total_target_health gs c (attackRange uc)),
          total_heath = total_heath s - of_nat (length (get_attackers gs c 0)) * damage_i (config gs TURRET),
          remaining_units = of_int \<lfloor>(total_heath s - of_nat (length (get_attackers gs c 0))
                                        * damage_i (config gs TURRET)) / health uc\<rfloor> + 1\<rparr>"
  have b: "frame_body gs uc c (length (get_attackers gs c 0)) (damage_i (config gs TURRET)) (health uc) s
        = Inr ?m"
    using Suc.prems by (rule frame_body_ok)
  have e: "spec_sub_frame gs uc c (damage_dealt s, total_heath s, remaining_units s)
        = (damage_dealt ?m, total_heath ?m, remaining_units ?m)"
    by (simp add: spec_sub_frame_def Let_def total_target_health_spec)
  have "frame_loop (Suc k) gs uc c (length (get_attackers gs c 0)) (damage_i (config gs TURRET))
           (health uc) s
        = frame_loop k gs uc c (length (get_attackers gs c 0)) (damage_i (config gs TURRET))
           (health uc) ?m"
    using b by simp
  also have "\<dots> = Inr (case (spec_sub_frame gs uc c ^^ k)
                              (damage_dealt ?m, total_heath ?m, remaining_units ?m) of
              (d, t, r) \<Rightarrow> \<lparr>damage_dealt = d, total_heath = t, remaining_units = r\<rparr>)"
    using Suc.IH[OF Suc.prems] .
  also have "(spec_sub_frame gs uc c ^^ k) (damage_dealt ?m, total_heath ?m, remaining_units ?m)
        = (spec_sub_frame gs uc c ^^ Suc k) (damage_dealt s, total_heath s, remaining_units s)"
    unfolding e [symmetric] by (simp only: funpow_Suc_right o_apply)
  finally show ?case .
qed

lemma gain_of_attack_first_cell:
  assumes "find_path_to_edge gs location = cell # rest"
    and "speed (config gs ut) \<noteq> 0" and "health (config gs ut) \<noteq> 0"
  shows "gain_of_attack gs n ut location = Inr (Some (spec_gain_first_cell gs n ut cell))"
proof -
  let ?uc = "config gs ut"
  let ?k = "nat \<lfloor>1 / speed ?uc\<rfloor>"
  let ?s0 = "\<lparr>damage_dealt = 0, total_heath = health ?uc * of_int n,
              remaining_units = of_int n\<rparr>"
  obtain d t r where f: "(spec_sub_frame gs ?uc cell ^^ ?k) (0, health ?uc * of_int n, of_int n)
        = (d, t, r)"
    by (cases "(spec_sub_frame gs ?uc cell ^^ ?k) (0, health ?uc * of_int n, of_int n)") auto
  have "frame_loop ?k gs ?uc cell (length (get_attackers gs cell 0)) (damage_i (config gs TURRET))
          (health ?uc) ?s0 = Inr \<lparr>damage_dealt = d, total_heath = t, remaining_units = r\<rparr>"
    using frame_loop_spec[OF assms(3), of ?k gs cell ?s0] f by simp
  then show ?thesis
    using assms(1,2) f
    by (simp add: gain_of_attack_def py_truediv_def range_len_py_int spec_gain_first_cell_def
        Let_def weight_damage_enemy_def weight_score_def)
qed

lemma spec_gain_first_cell_path_update:
  "spec_gain_first_cell (gs\<lparr>find_path_to_edge := f\<rparr>) n ut cell = spec_gain_first_cell gs n ut cell"
proof -
  have "spec_sub_frame (gs\<lparr>find_path_to_edge := f\<rparr>) uc cell = spec_sub_frame gs uc cell" for uc
    by (simp add: spec_sub_frame_def spec_total_opposing_health_in_range_def)
  then show ?thesis by (simp add: spec_gain_first_cell_def)
qed

text \<open>
  C6 (amended). For a path \<open>cell # rest\<close> and a unit type of non-zero speed and non-zero
  health (as the mobile unit types the callers pass are): \<open>gain_of_attack\<close> returns the
  gain that the specification's sub-frame update gives after \<open>floor(1 / speed)\<close>
  sub-frames on \<open>cell\<close> (none when that number is not positive), each adding
  \<open>min (damage_f * remaining_units) (total opposing health in attack range of cell)\<close> to
  the damage dealt, subtracting defender count times turret damage from the total health,
  and recomputing the remaining units as \<open>floor (total_health / health) + 1\<close>; the result
  is \<open>damage_dealt * 1 + remaining_units * 12\<close>. It does not depend on \<open>rest\<close>: replacing
  the rest of the path leaves it unchanged.
\<close>

theorem first_cell_only:
  assumes "find_path_to_edge gs location = cell # rest"
    and "speed (config gs ut) \<noteq> 0" and "health (config gs ut) \<noteq> 0"
  shows "gain_of_attack gs n ut location = Inr (Some (spec_gain_first_cell gs n ut cell))
       \<and> gain_of_attack (gs\<lparr>find_path_to_edge := (find_path_to_edge gs)(location := cell # rest')\<rparr>)
            n ut location = gain_of_attack gs n ut location"
proof -
  let ?gs' = "gs\<lparr>find_path_to_edge := (find_path_to_edge gs)(location := cell # rest')\<rparr>"
  have a: "gain_of_attack gs n ut location = Inr (Some (spec_gain_first_cell gs n ut cell))"
    using assms by (rule gain_of_attack_first_cell)
  have "gain_of_attack ?gs' n ut location = Inr (Some (spec_gain_first_cell ?gs' n ut cell))"
    by (rule gain_of_attack_first_cell[where rest = rest']) (use assms in simp_all)
  then show ?thesis using a by (simp add: spec_gain_first_cell_path_update)
qed

lemma skirmish_opposing_health:
  "spec_total_opposing_health_in_range skirmish_state (13, 0) r = 60"
  by (simp add: spec_total_opposing_health_in_range_def skirmish_state_def quiet_state_def
      enemy_wall_def)

lemma skirmish_spec_gain_scout:
  "spec_gain_first_cell skirmish_state 5 SCOUT (13, 0) = 70"
  by (simp add: spec_gain_first_cell_def spec_sub_frame_def Let_def skirmish_opposing_health)
     (simp add: skirmish_state_def quiet_state_def enemy_turret_def)

lemma skirmish_spec_gain_demolisher:
  "spec_gain_first_cell skirmish_state 1 DEMOLISHER (13, 0) = 16"
  by (simp add: spec_gain_first_cell_def spec_sub_frame_def Let_def skirmish_opposing_health)
     (simp add: skirmish_state_def quiet_state_def enemy_turret_def eval_nat_numeral)

theorem first_cell_only_witness:
  "find_path_to_edge skirmish_state (13, 0) = (13, 0) # [(13, 1)]
   \<and> speed (config skirmish_state SCOUT) \<noteq> 0
   \<and> health (config skirmish_state SCOUT) \<noteq> 0
   \<and> speed (config skirmish_state DEMOLISHER) \<noteq> 0
   \<and> health (config skirmish_state DEMOLISHER) \<noteq> 0
   \<and> spec_total_opposing_health_in_range skirmish_state (13, 0)
         (attackRange (config skirmish_state SCOUT)) = 60
   \<and> gain_of_attack skirmish_state 5 SCOUT (13, 0) = Inr (Some 70)
   \<and> gain_of_attack
        (skirmish_state\<lparr>find_path_to_edge :=
           (find_path_to_edge skirmish_state)((13, 0) := (13, 0) # [(12, 1), (12, 2)])\<rparr>)
        5 SCOUT (13, 0) = Inr (Some 70)
   \<and> gain_of_attack skirmish_state 1 DEMOLISHER (13, 0) = Inr (Some 16)"
proof -
  have p: "find_path_to_edge skirmish_state (13, 0) = (13, 0) # [(13, 1)]"
    by (simp add: skirmish_state_def quiet_state_def)
  have v: "speed (config skirmish_state SCOUT) \<noteq> 0"
    by (simp add: skirmish_state_def quiet_state_def)
  have h: "health (config skirmish_state SCOUT) \<noteq> 0"
    by (simp add: skirmish_state_def quiet_state_def)
  have v2: "speed (config skirmish_state DEMOLISHER) \<noteq> 0"
    by (simp add: skirmish_state_def quiet_state_def)
  have h2: "health (config skirmish_state DEMOLISHER) \<noteq> 0"
    by (simp add: skirmish_state_def quiet_state_def)
  have s: "gain_of_attack skirmish_state 5 SCOUT (13, 0) = Inr (Some 70)
     \<and> gain_of_attack
        (skirmish_state\<lparr>find_path_to_edge :=
           (find_path_to_edge skirmish_state)((13, 0) := (13, 0) # [(12, 1), (12, 2)])\<rparr>)
        5 SCOUT (13, 0) = Inr (Some 70)"
    using first_cell_only [OF p v h, of 5 "[(12, 1), (12, 2)]"]
    by (simp only: skirmish_spec_gain_scout)
  have d: "gain_of_attack skirmish_state 1 DEMOLISHER (13, 0) = Inr (Some 16)"
    using first_cell_only [OF p v2 h2, of 1 "[]"]
    by (simp only: skirmish_spec_gain_demolisher)
  show ?thesis
    using p v h v2 h2 s d skirmish_opposing_health by blast
qed

theorem first_cell_only_counterexample:
  "find_path_to_edge quiet_state (13, 0) = [(13, 0), (13, 1)]
   \<and> speed (config quiet_state WALL) = 0
   \<and> gain_of_attack quiet_state 1 WALL (13, 0) = Inl ZeroDivisionError"
  by (simp add: gain_of_attack_def quiet_state_def py_truediv_def)

subsection \<open>An unopposed attack\<close>

text \<open>
  C1 (amended). Start count \<open>n \<ge> 1\<close>, a non-empty path, no defender able to hit any path
  cell, no opposing unit in attack range of any path cell, a unit type of non-zero health
  and speed and non-negative \<open>damage_f\<close>: no damage is dealt, and the returned gain is
  \<open>(n + 1) * weight_score\<close> when at least one sub-frame is simulated (speed in \<open>(0, 1]\<close>),
  because the recomputed count is \<open>floor (n * health / health) + 1 = n + 1\<close>; it is
  \<open>n * weight_score\<close> only when no sub-frame runs (speed above 1 or negative).
\<close>

theorem gain_without_opposition:
  assumes n: "1 \<le> n"
    and path: "find_path_to_edge gs location = c # rest"
    and quiet: "\<forall>p \<in> set (c # rest). get_attackers gs p 0 = []"
    and targets: "\<forall>p \<in> set (c # rest).
        \<forall>l \<in> set (get_locations_in_range gs p (attackRange (config gs ut))).
          \<forall>u \<in> set (game_map gs l). player_index u = 0"
    and h: "health (config gs ut) \<noteq> 0"
    and v: "speed (config gs ut) \<noteq> 0"
    and d: "0 \<le> damage_f (config gs ut)"
  shows "gain_of_attack gs n ut location =
           Inr (Some ((if 0 < speed (config gs ut) \<and> speed (config gs ut) \<le> 1
                       then of_int n + 1 else of_int n) * weight_score))"
proof -
  let ?uc = "config gs ut"
  let ?k = "range_len (py_int (1 / speed ?uc))"
  let ?s0 = "\<lparr>damage_dealt = 0, total_heath = health ?uc * of_int n,
              remaining_units = of_int n\<rparr>"
  have nt: "length (get_attackers gs c 0) = 0" using quiet by simp
  have T: "total_target_health gs c (attackRange ?uc) = 0"
    using targets by (simp add: total_target_health_none)
  have n0: "(0::rat) \<le> of_int n" using n by simp
  have m1: "min (damage_f ?uc * of_int n) (0::rat) = 0"
    using mult_nonneg_nonneg[OF d n0] by (rule min_absorb2)
  have "(0::rat) \<le> of_int n + 1" using n0 by simp
  from mult_nonneg_nonneg[OF d this]
  have m2: "min (damage_f ?uc * (of_int n + 1)) (0::rat) = 0"
    by (rule min_absorb2)
  show ?thesis
  proof (cases "0 < speed ?uc \<and> speed ?uc \<le> 1")
    case True
    then have "0 < ?k" using frames_pos_iff[OF v] by simp
    then obtain j where j: "?k = Suc j" by (cases ?k) auto
    have "frame_loop ?k gs ?uc c 0 (damage_i (config gs TURRET)) (health ?uc) ?s0
          = Inr \<lparr>damage_dealt = 0, total_heath = health ?uc * of_int n,
                 remaining_units = of_int n + 1\<rparr>"
      unfolding j
      using frame_loop_steady [where h = "health ?uc" and nt = 0 and td = "damage_i (config gs TURRET)"
              and j = j and gs = gs and uc = ?uc and c = c and s = ?s0] h
      by (simp add: T m1 m2 del: frame_loop.simps)
    then show ?thesis
      using True path v nt
      by (simp add: gain_of_attack_def py_truediv_def Let_def weight_damage_enemy_def)
  next
    case False
    then have "?k = 0" using frames_pos_iff[OF v] by blast
    then show ?thesis
      using False path v
      by (auto simp add: gain_of_attack_def py_truediv_def Let_def weight_damage_enemy_def)
  qed
qed

theorem gain_without_opposition_witness:
  "(1::int) \<le> 3
   \<and> find_path_to_edge quiet_state (13, 0) = (13, 0) # [(13, 1)]
   \<and> get_attackers quiet_state (13, 0) 0 = []
   \<and> get_attackers quiet_state (13, 1) 0 = []
   \<and> concat (map (game_map quiet_state)
         (get_locations_in_range quiet_state (13, 0) (attackRange (config quiet_state SCOUT)))) = []
   \<and> concat (map (game_map quiet_state)
         (get_locations_in_range quiet_state (13, 1) (attackRange (config quiet_state SCOUT)))) = []
   \<and> health (config quiet_state SCOUT) \<noteq> 0
   \<and> speed (config quiet_state SCOUT) \<noteq> 0
   \<and> 0 \<le> damage_f (config quiet_state SCOUT)
   \<and> gain_of_attack quiet_state 3 SCOUT (13, 0) = Inr (Some 48)"
proof -
  have n: "(1::int) \<le> 3" by simp
  have p: "find_path_to_edge quiet_state (13, 0) = (13, 0) # [(13, 1)]"
    by (simp add: quiet_state_def)
  have q: "\<forall>p \<in> set ((13, 0) # [(13, 1)]). get_attackers quiet_state p 0 = []"
    by (simp add: quiet_state_def)
  have t: "\<forall>p \<in> set ((13, 0) # [(13, 1)]).
        \<forall>l \<in> set (get_locations_in_range quiet_state p (attackRange (config quiet_state SCOUT))).
          \<forall>u \<in> set (game_map quiet_state l). player_index u = 0"
    by (simp add: quiet_state_def)
  have h: "health (config quiet_state SCOUT) \<noteq> 0" by (simp add: quiet_state_def)
  have v: "speed (config quiet_state SCOUT) \<noteq> 0" by (simp add: quiet_state_def)
  have d: "0 \<le> damage_f (config quiet_state SCOUT)" by (simp add: quiet_state_def)
  have g: "gain_of_attack quiet_state 3 SCOUT (13, 0) = Inr (Some 48)"
    using gain_without_opposition [OF n p q t h v d]
    by (simp add: quiet_state_def weight_score_def)
  have e: "get_attackers quiet_state (13, 0) 0 = []" "get_attackers quiet_state (13, 1) 0 = []"
    "concat (map (game_map quiet_state)
         (get_locations_in_range quiet_state (13, 0) (attackRange (config quiet_state SCOUT)))) = []"
    "concat (map (game_map quiet_state)
         (get_locations_in_range quiet_state (13, 1) (attackRange (config quiet_state SCOUT)))) = []"
    by (simp_all add: quiet_state_def)
  show ?thesis using n p e h v d g by blast
qed

theorem gain_without_opposition_counterexample:
  "(1::int) \<le> 1
   \<and> find_path_to_edge quiet_state (13, 0) = [(13, 0), (13, 1)]
   \<and> get_attackers quiet_state (13, 0) 0 = []
   \<and> get_attackers quiet_state (13, 1) 0 = []
   \<and> total_target_health quiet_state (13, 0) (attackRange (config quiet_state SCOUT)) = 0
   \<and> total_target_health quiet_state (13, 1) (attackRange (config quiet_state SCOUT)) = 0
   \<and> gain_of_attack quiet_state 1 SCOUT (13, 0) = Inr (Some 24)
   \<and> gain_of_attack quiet_state 1 SCOUT (13, 0) \<noteq> Inr (Some (1 * weight_score))"
  by (simp add: gain_of_attack_def quiet_state_def py_truediv_def py_int_def range_len_def
      frame_body_def py_floordiv_def total_target_health_def weight_damage_enemy_def
      weight_score_def)

subsection \<open>The surviving count under fire\<close>

text \<open>
  C5 (amended). For a unit type of positive health, every run of the frame loop of
  \<open>gain_of_attack\<close> returns, and after each sub-frame (the \<open>Suc j\<close>-th) the recomputed
  count is \<open>floor ((n * health - cumulative damage) / health) + 1\<close>, computed from the
  current total health. There is no clamp: the count is non-negative exactly when the
  cumulative defender damage so far is at most \<open>(n + 1) * health\<close>, and negative beyond.
\<close>

theorem remaining_units_sign:
  assumes h: "0 < health (config gs ut)"
  shows "\<exists>s. frame_loop (Suc j) gs (config gs ut) c (length (get_attackers gs c 0))
               (damage_i (config gs TURRET)) (health (config gs ut))
               \<lparr>damage_dealt = 0, total_heath = health (config gs ut) * of_int n,
                remaining_units = of_int n\<rparr> = Inr s
     \<and> remaining_units s =
         of_int \<lfloor>(health (config gs ut) * of_int n
                   - of_nat (Suc j) * (of_nat (length (get_attackers gs c 0))
                                         * damage_i (config gs TURRET)))
                  / health (config gs ut)\<rfloor> + 1
     \<and> (0 \<le> remaining_units s \<longleftrightarrow>
          of_nat (Suc j) * (of_nat (length (get_attackers gs c 0)) * damage_i (config gs TURRET))
            \<le> (of_int n + 1) * health (config gs ut))"
proof -
  let ?h = "health (config gs ut)"
  let ?D = "of_nat (Suc j) * (of_nat (length (get_attackers gs c 0)) * damage_i (config gs TURRET))"
  let ?s0 = "\<lparr>damage_dealt = 0, total_heath = ?h * of_int n, remaining_units = of_int n\<rparr>"
  have h0: "?h \<noteq> 0" using h by simp
  obtain s where s: "frame_loop (Suc j) gs (config gs ut) c (length (get_attackers gs c 0))
               (damage_i (config gs TURRET)) ?h ?s0 = Inr s"
    using frame_loop_total[OF h0] by blast
  have r: "remaining_units s = of_int \<lfloor>(?h * of_int n - ?D) / ?h\<rfloor> + 1"
    using frame_loop_remaining[OF h0 s] by simp
  have "(0 \<le> remaining_units s) = (- 1 \<le> (?h * of_int n - ?D) / ?h)"
    unfolding r by (rule floor_plus_one_nonneg)
  also have "\<dots> = (- 1 * ?h \<le> ?h * of_int n - ?D)"
    using h by (rule pos_le_divide_eq)
  also have "\<dots> = (?D \<le> (of_int n + 1) * ?h)"
    by (auto simp add: algebra_simps)
  finally have "(0 \<le> remaining_units s) = (?D \<le> (of_int n + 1) * ?h)" .
  with s r show ?thesis by blast
qed

theorem remaining_units_sign_witness:
  "0 < health (config siege_state SCOUT)
   \<and> (\<exists>s. frame_loop (Suc 0) siege_state (config siege_state SCOUT) (13, 0)
               (length (get_attackers siege_state (13, 0) 0))
               (damage_i (config siege_state TURRET)) (health (config siege_state SCOUT))
               \<lparr>damage_dealt = 0, total_heath = health (config siege_state SCOUT) * of_int 1,
                remaining_units = of_int 1\<rparr> = Inr s
         \<and> remaining_units s = - 1 \<and> \<not> 0 \<le> remaining_units s)"
proof -
  have h: "0 < health (config siege_state SCOUT)"
    by (simp add: siege_state_def quiet_state_def)
  show ?thesis
    using h remaining_units_sign [OF h, of 0 "(13, 0)" 1]
    by (auto simp add: siege_state_def quiet_state_def)
qed

theorem remaining_units_negative_counterexample:
  "0 < health (config siege_state SCOUT)
   \<and> find_path_to_edge siege_state (13, 0) = [(13, 0), (13, 1)]
   \<and> frame_loop 1 siege_state (config siege_state SCOUT) (13, 0)
        (length (get_attackers siege_state (13, 0) 0))
        (damage_i (config siege_state TURRET)) (health (config siege_state SCOUT))
        \<lparr>damage_dealt = 0, total_heath = health (config siege_state SCOUT) * 1,
         remaining_units = 1\<rparr>
       = Inr \<lparr>damage_dealt = 0, total_heath = - 20, remaining_units = - 1\<rparr>
   \<and> gain_of_attack siege_state 1 SCOUT (13, 0) = Inr (Some (- 12))"
  by (simp add: gain_of_attack_def siege_state_def quiet_state_def py_truediv_def py_int_def
      range_len_def frame_body_def py_floordiv_def total_target_health_def
      weight_damage_enemy_def weight_score_def enemy_turret_def)

subsection \<open>The gain of an empty squad\<close>

lemma outpost_target_health:
  "total_target_health outpost_state (13, 0) r = 60"
  by (simp add: total_target_health_def outpost_state_def quiet_state_def enemy_wall_def)

text \<open>
  C10 (amended). \<open>number_units = 0\<close>, a non-empty path, no defender able to hit the first
  path cell, positive unit health, non-zero speed and non-negative target health in range:
  after the first sub-frame the surviving count is \<open>floor (0 / health) + 1 = 1\<close>, and that
  phantom unit deals damage in every later sub-frame. With \<open>k = int (1 / speed) \<ge> 1\<close>
  sub-frames the gain is
  \<open>(k - 1) * min damage_f (target health in range) * weight_damage_enemy + weight_score\<close>:
  exactly \<open>weight_score\<close> when one sub-frame runs or nothing can be damaged, more
  otherwise; with no sub-frame (\<open>k = 0\<close>) the gain is 0.
\<close>

theorem gain_of_empty_squad:
  assumes path: "find_path_to_edge gs location = c # rest"
    and quiet: "get_attackers gs c 0 = []"
    and h: "0 < health (config gs ut)"
    and v: "speed (config gs ut) \<noteq> 0"
    and T: "0 \<le> total_target_health gs c (attackRange (config gs ut))"
  shows "gain_of_attack gs 0 ut location =
           Inr (Some (if range_len (py_int (1 / speed (config gs ut))) = 0 then 0
                      else of_nat (range_len (py_int (1 / speed (config gs ut))) - 1)
                             * min (damage_f (config gs ut))
                                   (total_target_health gs c (attackRange (config gs ut)))
                             * weight_damage_enemy
                           + weight_score))"
proof -
  let ?uc = "config gs ut"
  let ?k = "range_len (py_int (1 / speed ?uc))"
  let ?T = "total_target_health gs c (attackRange ?uc)"
  let ?s0 = "\<lparr>damage_dealt = 0, total_heath = health ?uc * of_int 0,
              remaining_units = of_int 0\<rparr>"
  have h0: "health ?uc \<noteq> 0" using h by simp
  have m0: "min 0 ?T = 0" using T by (rule min_absorb1)
  show ?thesis
  proof (cases ?k)
    case 0
    then show ?thesis
      using path v by (simp add: gain_of_attack_def py_truediv_def Let_def)
  next
    case (Suc j)
    have "frame_loop ?k gs ?uc c 0 (damage_i (config gs TURRET)) (health ?uc) ?s0
          = Inr \<lparr>damage_dealt = of_nat j * min (damage_f ?uc) ?T, total_heath = 0,
                 remaining_units = 1\<rparr>"
      unfolding Suc
      using frame_loop_steady [where h = "health ?uc" and nt = 0 and td = "damage_i (config gs TURRET)"
              and j = j and gs = gs and uc = ?uc and c = c and s = ?s0] h0
      by (simp add: m0 del: frame_loop.simps)
    then show ?thesis
      using Suc path v quiet
      by (simp add: gain_of_attack_def py_truediv_def Let_def)
  qed
qed

theorem gain_of_empty_squad_witness:
  "find_path_to_edge outpost_state (13, 0) = (13, 0) # [(13, 1)]
   \<and> get_attackers outpost_state (13, 0) 0 = []
   \<and> 0 < health (config outpost_state DEMOLISHER)
   \<and> speed (config outpost_state DEMOLISHER) \<noteq> 0
   \<and> 0 \<le> total_target_health outpost_state (13, 0) (attackRange (config outpost_state DEMOLISHER))
   \<and> gain_of_attack outpost_state 0 DEMOLISHER (13, 0) = Inr (Some (1 * 8 * 1 + 12))"
proof -
  have p: "find_path_to_edge outpost_state (13, 0) = (13, 0) # [(13, 1)]"
    by (simp add: outpost_state_def quiet_state_def)
  have q: "get_attackers outpost_state (13, 0) 0 = []"
    by (simp add: outpost_state_def quiet_state_def)
  have h: "0 < health (config outpost_state DEMOLISHER)"
    by (simp add: outpost_state_def quiet_state_def)
  have v: "speed (config outpost_state DEMOLISHER) \<noteq> 0"
    by (simp add: outpost_state_def quiet_state_def)
  have t: "0 \<le> total_target_health outpost_state (13, 0) (attackRange (config outpost_state DEMOLISHER))"
    by (simp add: outpost_target_health)
  have c: "config outpost_state DEMOLISHER = demo_config DEMOLISHER"
    by (simp add: outpost_state_def quiet_state_def)
  have "gain_of_attack outpost_state 0 DEMOLISHER (13, 0) = Inr (Some (1 * 8 * 1 + 12))"
    using gain_of_empty_squad [OF p q h v t]
    by (simp add: c outpost_target_health py_int_def range_len_def
        weight_damage_enemy_def weight_score_def)
  then show ?thesis using p q h v t by blast
qed

theorem gain_of_empty_squad_counterexample:
  "find_path_to_edge outpost_state (13, 0) = [(13, 0), (13, 1)]
   \<and> get_attackers outpost_state (13, 0) 0 = []
   \<and> 0 < health (config outpost_state DEMOLISHER)
   \<and> gain_of_attack outpost_state 0 DEMOLISHER (13, 0) = Inr (Some 20)
   \<and> gain_of_attack outpost_state 0 DEMOLISHER (13, 0) \<noteq> Inr (Some weight_score)"
  by (simp add: gain_of_attack_def outpost_state_def quiet_state_def py_truediv_def py_int_def
      range_len_def frame_body_def py_floordiv_def total_target_health_def
      weight_damage_enemy_def weight_score_def enemy_wall_def eval_nat_numeral)

subsection \<open>Faults of \<^verbatim>\<open>attempt_to_attack\<close>\<close>

text \<open>
  Whenever no scout is affordable the divisor of \<^verbatim>\<open>opt1_gain\<close> is zero: the function raises
  (in the candidate loop or, at the latest, at that division), whatever the rest of the state.
\<close>

lemma attempt_to_attack_no_scouts_raises:
  assumes "number_affordable gs SCOUT = 0"
  shows "\<exists>e. attempt_to_attack gs = Inl e"
  using assms
  by (auto simp add: attempt_to_attack_def opt1_gain_of_def py_truediv_def Let_def
      split: sum.splits)

text \<open>
  C2. With all three counts zero, \<open>attempt_to_attack\<close> should complete and deploy
  nothing. The code does not: in \<open>broke_state\<close>, where nothing is affordable, the
  division \<^verbatim>\<open>scout_gain/(game_state.type_cost(SCOUT)[MP] * max_scout_spawn)\<close> raises
  \<^verbatim>\<open>ZeroDivisionError\<close>.
\<close>

theorem zero_counts_fault:
  "number_affordable broke_state SCOUT = 0
   \<and> number_affordable broke_state DEMOLISHER div 2 = 0
   \<and> number_affordable broke_state INTERCEPTOR div 2 = 0
   \<and> attempt_to_attack broke_state = Inl ZeroDivisionError"
  by code_simp

text \<open>
  With no deploy location the loop body never runs and \<^verbatim>\<open>demolisher_deploy_location\<close> is
  never assigned: the function raises at the first division (no scout affordable) or when
  it reads that variable to compute \<^verbatim>\<open>location_index\<close>.
\<close>

lemma attempt_to_attack_no_candidates_raises:
  assumes "deploy_locations_of gs = []"
  shows "attempt_to_attack gs = Inl ZeroDivisionError \<or> attempt_to_attack gs = Inl UnboundLocalError"
  using assms
  by (auto simp add: attempt_to_attack_def opt1_gain_of_def py_truediv_def Let_def
      location_index_of_def init_tracker_def split: sum.splits)

text \<open>
  C3. With an empty filtered deploy-location list, \<open>attempt_to_attack\<close> should end
  normally and deploy nothing. The code does not: in \<open>blocked_state\<close>, where every
  friendly edge cell is blocked, it raises \<^verbatim>\<open>UnboundLocalError\<close> on reading
  \<^verbatim>\<open>demolisher_deploy_location\<close>.
\<close>

theorem no_candidates_fault:
  "deploy_locations_of blocked_state = []
   \<and> attempt_to_attack blocked_state = Inl UnboundLocalError"
  by code_simp

text \<open>
  On an empty path \<open>gain_of_attack\<close> returns \<^verbatim>\<open>None\<close>, and the first comparison of the
  loop body raises; so does the whole function as soon as one deploy location has an empty
  path.
\<close>

lemma gain_of_attack_empty_path:
  "find_path_to_edge gs location = [] \<Longrightarrow> gain_of_attack gs n ut location = Inr None"
  by (simp add: gain_of_attack_def)

lemma loop_body_empty_path:
  "find_path_to_edge gs location = [] \<Longrightarrow> loop_body gs a b c location tr = Inl TypeError"
  by (simp add: loop_body_def gain_of_attack_empty_path update_scout_def)

lemma candidate_loop_empty_path:
  "location \<in> set ls \<Longrightarrow> find_path_to_edge gs location = [] \<Longrightarrow>
   \<exists>e. candidate_loop gs a b c ls tr = Inl e"
  by (induction ls arbitrary: tr) (auto simp add: loop_body_empty_path split: sum.splits)

lemma attempt_to_attack_empty_path_raises:
  assumes "location \<in> set (deploy_locations_of gs)" and "find_path_to_edge gs location = []"
  shows "\<exists>e. attempt_to_attack gs = Inl e"
proof -
  obtain e where "candidate_loop gs (number_affordable gs SCOUT)
      (number_affordable gs DEMOLISHER div 2) (number_affordable gs INTERCEPTOR div 2)
      (deploy_locations_of gs) init_tracker = Inl e"
    using candidate_loop_empty_path[OF assms] by blast
  then show ?thesis by (simp add: attempt_to_attack_def Let_def)
qed

text \<open>
  C4. For a location whose path is empty, \<open>gain_of_attack\<close> should return a number
  marking the candidate as non-competitive, and \<open>attempt_to_attack\<close> should go on
  without it. The code does not: in \<open>no_path_state\<close> the gain is \<^verbatim>\<open>None\<close> and
  \<^verbatim>\<open>gain_location_scout > scout_gain\<close> raises \<^verbatim>\<open>TypeError\<close>.
\<close>

theorem empty_path_fault:
  "find_path_to_edge no_path_state (13, 0) = []
   \<and> gain_of_attack no_path_state 5 SCOUT (13, 0) = Inr None
   \<and> attempt_to_attack no_path_state = Inl TypeError"
  by code_simp

subsection \<open>The safest spawn location\<close>

lemma path_damage_loop_sum:
  "path_damage_loop gs ps d =
     d + sum_list (map (\<lambda>cell. of_nat (length (get_attackers gs cell 0)) * damage_i (config gs TURRET)) ps)"
  by (induction ps arbitrary: d) (auto simp add: algebra_simps)

lemma damages_loop_map:
  "damages_loop gs ls acc = acc @ map (estimate_path_damage gs) ls"
  by (induction ls arbitrary: acc) (auto simp add: path_damage_loop_sum estimate_path_damage_def)

lemma min_from_le: "min_from ys m \<le> m"
  by (induction ys arbitrary: m) (auto intro: order_trans less_imp_le)

lemma min_from_lower: "y \<in> set ys \<Longrightarrow> min_from ys m \<le> y"
proof (induction ys arbitrary: m)
  case Nil
  then show ?case by simp
next
  case (Cons a ys)
  show ?case
  proof (cases "y = a")
    case True
    have "min_from ys (if a < m then a else m) \<le> (if a < m then a else m)" by (rule min_from_le)
    also have "\<dots> \<le> a" by simp
    finally show ?thesis using True by simp
  next
    case False
    then have "y \<in> set ys" using Cons.prems by simp
    then show ?thesis using Cons.IH by simp
  qed
qed

lemma min_from_mem: "min_from ys m \<in> set (m # ys)"
  by (induction ys arbitrary: m) auto

lemma py_index_first:
  "v \<in> set xs \<Longrightarrow>
   \<exists>i. py_index xs v = Inr i \<and> i < length xs \<and> xs ! i = v \<and> (\<forall>j<i. xs ! j \<noteq> v)"
proof (induction xs)
  case Nil
  then show ?case by simp
next
  case (Cons x xs)
  show ?case
  proof (cases "x = v")
    case True
    then show ?thesis by simp
  next
    case False
    then have "v \<in> set xs" using Cons.prems by simp
    then obtain i where i: "py_index xs v = Inr i" "i < length xs" "xs ! i = v" "\<forall>j<i. xs ! j \<noteq> v"
      using Cons.IH by blast
    have "\<forall>j<Suc i. (x # xs) ! j \<noteq> v"
    proof (intro allI impI)
      fix j assume "j < Suc i"
      then show "(x # xs) ! j \<noteq> v"
        using False i(4) by (cases j) auto
    qed
    then show ?thesis using False i by simp
  qed
qed

text \<open>
  C9. For a non-empty list of location options, \<open>least_damage_spawn_location\<close> returns
  the option at some position \<open>i\<close> whose path-damage estimate (defender count times turret
  damage, summed over the cells of its path; 0 for an empty path) is at most that of every
  option, and strictly below that of every option before position \<open>i\<close>: the first option,
  in input order, of minimum estimated damage.
\<close>

theorem least_damage_first_argmin:
  assumes "location_options \<noteq> []"
  shows "\<exists>i<length location_options.
           least_damage_spawn_location gs location_options = Inr (location_options ! i)
         \<and> (\<forall>j<length location_options.
               estimate_path_damage gs (location_options ! i)
                 \<le> estimate_path_damage gs (location_options ! j))
         \<and> (\<forall>j<i. estimate_path_damage gs (location_options ! i)
                       < estimate_path_damage gs (location_options ! j))"
proof -
  let ?ds = "map (estimate_path_damage gs) location_options"
  obtain d ds where ds: "?ds = d # ds" using assms by (cases location_options) auto
  let ?m = "min_from ds d"
  have pm: "py_min ?ds = Inr ?m" by (simp add: ds)
  have mem: "?m \<in> set ?ds" unfolding ds by (rule min_from_mem)
  have low: "?m \<le> y" if "y \<in> set ?ds" for y
    using that min_from_le[of ds d] min_from_lower[of y ds d] unfolding ds by auto
  obtain i where i: "py_index ?ds ?m = Inr i" "i < length ?ds" "?ds ! i = ?m"
      "\<forall>j<i. ?ds ! j \<noteq> ?m"
    using py_index_first[OF mem] by blast
  have il: "i < length location_options" using i(2) by simp
  have r: "least_damage_spawn_location gs location_options = Inr (location_options ! i)"
    using pm i(1) il by (simp add: least_damage_spawn_location_def damages_loop_map)
  have e: "estimate_path_damage gs (location_options ! i) = ?m"
    using i(3) il by simp
  have a: "\<forall>j<length location_options.
             estimate_path_damage gs (location_options ! i) \<le> estimate_path_damage gs (location_options ! j)"
  proof (intro allI impI)
    fix j assume j: "j < length location_options"
    then have "?ds ! j \<in> set ?ds" by (metis length_map nth_mem)
    then have "?m \<le> ?ds ! j" by (rule low)
    then show "estimate_path_damage gs (location_options ! i) \<le> estimate_path_damage gs (location_options ! j)"
      using e j by simp
  qed
  have b: "\<forall>j<i. estimate_path_damage gs (location_options ! i) < estimate_path_damage gs (location_options ! j)"
  proof (intro allI impI)
    fix j assume j: "j < i"
    then have jl: "j < length location_options" using il by simp
    have "?ds ! j \<noteq> ?m" using i(4) j by blast
    moreover have "?m \<le> ?ds ! j" using a e jl by simp
    ultimately have "?m < ?ds ! j" by simp
    then show "estimate_path_damage gs (location_options ! i) < estimate_path_damage gs (location_options ! j)"
      using e jl by simp
  qed
  show ?thesis using il r a b by blast
qed

theorem least_damage_first_argmin_witness:
  "[(13, 0), (14, 0), (15, 1)] \<noteq> ([] :: location list)
   \<and> least_damage_spawn_location flank_state [(13, 0), (14, 0), (15, 1)] = Inr (14, 0)
   \<and> (\<exists>i<length [(13, 0), (14, 0), (15, 1) :: location].
           least_damage_spawn_location flank_state [(13, 0), (14, 0), (15, 1)]
             = Inr ([(13, 0), (14, 0), (15, 1)] ! i)
         \<and> (\<forall>j<length [(13, 0), (14, 0), (15, 1) :: location].
               estimate_path_damage flank_state ([(13, 0), (14, 0), (15, 1)] ! i)
                 \<le> estimate_path_damage flank_state ([(13, 0), (14, 0), (15, 1)] ! j))
         \<and> (\<forall>j<i. estimate_path_damage flank_state ([(13, 0), (14, 0), (15, 1)] ! i)
                       < estimate_path_damage flank_state ([(13, 0), (14, 0), (15, 1)] ! j)))"
proof -
  have ne: "[(13, 0), (14, 0), (15, 1)] \<noteq> ([] :: location list)" by simp
  have v: "least_damage_spawn_location flank_state [(13, 0), (14, 0), (15, 1)] = Inr (14, 0)"
    by code_simp
  show ?thesis
    using ne v least_damage_first_argmin [OF ne, of flank_state] by blast
qed

subsection \<open>The decision policy\<close>




subsection \<open>The two interceptor slots\<close>

lemma slots_inv_init: "slots_inv gs n [] init_tracker"
  by (simp add: slots_inv_def init_tracker_def)

lemma update_scout_slots:
  "update_scout l g tr = Inr tr' \<Longrightarrow>
   interceptor_gains tr' = interceptor_gains tr
   \<and> interceptor_deploy_locations tr' = interceptor_deploy_locations tr"
  by (cases g) (auto simp add: update_scout_def split: if_splits)

lemma update_demolisher_slots:
  "update_demolisher l g tr = Inr tr' \<Longrightarrow>
   interceptor_gains tr' = interceptor_gains tr
   \<and> interceptor_deploy_locations tr' = interceptor_deploy_locations tr"
  by (cases g) (auto simp add: update_demolisher_def split: if_splits)

lemma update_interceptor_slots:
  assumes "update_interceptor l og tr = Inr tr'"
    and "interceptor_gains tr = [g0, g1]" and "interceptor_deploy_locations tr = [l0, l1]"
  shows "\<exists>g. og = Some g
     \<and> (if g > g0 then interceptor_gains tr' = [g, g0] \<and> interceptor_deploy_locations tr' = [l, l0]
         else if g > g1 then interceptor_gains tr' = [g0, g] \<and> interceptor_deploy_locations tr' = [l0, l]
         else interceptor_gains tr' = [g0, g1] \<and> interceptor_deploy_locations tr' = [l0, l1])"
proof (cases og)
  case None
  then show ?thesis using assms(1) by (simp add: update_interceptor_def)
next
  case (Some g)
  consider "g > g0" | "\<not> g > g0" "g > g1" | "\<not> g > g0" "\<not> g > g1" by blast
  then show ?thesis
  proof cases
    case 1
    then show ?thesis using assms Some by (auto simp add: update_interceptor_def)
  next
    case 2
    then show ?thesis using assms Some by (auto simp add: update_interceptor_def)
  next
    case 3
    then show ?thesis using assms Some by (auto simp add: update_interceptor_def)
  qed
qed

lemma loop_body_parts:
  assumes "loop_body gs a b c l tr = Inr tr'"
  shows "\<exists>g1 g2 g3 tr1 tr2.
           gain_of_attack gs c INTERCEPTOR l = Inr g3
         \<and> update_scout l g1 tr = Inr tr1
         \<and> update_demolisher l g2 tr1 = Inr tr2
         \<and> update_interceptor l g3 tr2 = Inr tr'"
proof -
  obtain g1 where g1: "gain_of_attack gs a SCOUT l = Inr g1"
    using assms by (cases "gain_of_attack gs a SCOUT l") (simp_all add: loop_body_def)
  obtain g2 where g2: "gain_of_attack gs b DEMOLISHER l = Inr g2"
    using assms g1 by (cases "gain_of_attack gs b DEMOLISHER l") (simp_all add: loop_body_def)
  obtain g3 where g3: "gain_of_attack gs c INTERCEPTOR l = Inr g3"
    using assms g1 g2 by (cases "gain_of_attack gs c INTERCEPTOR l") (simp_all add: loop_body_def)
  obtain tr1 where t1: "update_scout l g1 tr = Inr tr1"
    using assms g1 g2 g3 by (cases "update_scout l g1 tr") (simp_all add: loop_body_def)
  obtain tr2 where t2: "update_demolisher l g2 tr1 = Inr tr2"
    using assms g1 g2 g3 t1 by (cases "update_demolisher l g2 tr1") (simp_all add: loop_body_def)
  have "update_interceptor l g3 tr2 = Inr tr'"
    using assms g1 g2 g3 t1 t2 by (simp add: loop_body_def)
  then show ?thesis using g3 t1 t2 by blast
qed

lemma loop_body_slots:
  assumes "loop_body gs a b c l tr = Inr tr'"
    and "interceptor_gains tr = [g0, g1]" and "interceptor_deploy_locations tr = [l0, l1]"
  shows "\<exists>g. gain_of_attack gs c INTERCEPTOR l = Inr (Some g)
     \<and> (if g > g0 then interceptor_gains tr' = [g, g0] \<and> interceptor_deploy_locations tr' = [l, l0]
         else if g > g1 then interceptor_gains tr' = [g0, g] \<and> interceptor_deploy_locations tr' = [l0, l]
         else interceptor_gains tr' = [g0, g1] \<and> interceptor_deploy_locations tr' = [l0, l1])"
proof -
  obtain q1 q2 q3 tr1 tr2 where p:
    "gain_of_attack gs c INTERCEPTOR l = Inr q3"
    "update_scout l q1 tr = Inr tr1"
    "update_demolisher l q2 tr1 = Inr tr2"
    "update_interceptor l q3 tr2 = Inr tr'"
    using loop_body_parts[OF assms(1)] by blast
  have "interceptor_gains tr2 = [g0, g1]" "interceptor_deploy_locations tr2 = [l0, l1]"
    using update_scout_slots[OF p(2)] update_demolisher_slots[OF p(3)] assms(2,3) by simp_all
  from update_interceptor_slots[OF p(4) this] p(1) show ?thesis by auto
qed


lemma slots_inv_step:
  assumes inv: "slots_inv gs c P tr"
    and body: "loop_body gs a b c l tr = Inr tr'"
    and fresh: "l \<notin> set P" and nz: "l \<noteq> (0, 0)"
  shows "slots_inv gs c (P @ [l]) tr'"
proof -
  let ?G = "\<lambda>x. gain_of_attack gs c INTERCEPTOR x"
  obtain g0 g1 l0 l1 where
    G: "interceptor_gains tr = [g0, g1]" and L: "interceptor_deploy_locations tr = [l0, l1]"
    and B: "- 999 \<le> g1" "g1 \<le> g0"
    and A: "\<forall>x\<in>set P. \<exists>g. ?G x = Inr (Some g) \<and> g \<le> g0 \<and> (x \<noteq> l0 \<longrightarrow> g \<le> g1)"
    and S0: "(g0 = - 999 \<and> l0 = (0, 0))
          \<or> (\<exists>i<length P. P ! i = l0 \<and> ?G l0 = Inr (Some g0)
                \<and> (\<forall>j<i. \<forall>g. ?G (P ! j) = Inr (Some g) \<longrightarrow> g < g0))"
    and S1: "(g1 = - 999 \<and> l1 = (0, 0))
          \<or> (\<exists>i<length P. P ! i = l1 \<and> l1 \<noteq> l0 \<and> ?G l1 = Inr (Some g1)
                \<and> (\<forall>j<i. P ! j \<noteq> l0 \<longrightarrow> (\<forall>g. ?G (P ! j) = Inr (Some g) \<longrightarrow> g < g1)))"
    using inv unfolding slots_inv_def by blast
  obtain g where g: "?G l = Inr (Some g)"
    and upd: "if g > g0 then interceptor_gains tr' = [g, g0] \<and> interceptor_deploy_locations tr' = [l, l0]
         else if g > g1 then interceptor_gains tr' = [g0, g] \<and> interceptor_deploy_locations tr' = [l0, l]
         else interceptor_gains tr' = [g0, g1] \<and> interceptor_deploy_locations tr' = [l0, l1]"
    using loop_body_slots[OF body G L] by blast
  have l0l: "l0 \<noteq> l"
    using S0 nz fresh by (auto dest: nth_mem)
  have nthP: "(P @ [l]) ! j = P ! j" if "j < length P" for j
    using that by (simp add: nth_append)
  have nthl: "(P @ [l]) ! length P = l" by simp
  \<comment> \<open>the old slots stay the first best of the longer prefix\<close>
  have S0': "(g0 = - 999 \<and> l0 = (0, 0))
          \<or> (\<exists>i<length (P @ [l]). (P @ [l]) ! i = l0 \<and> ?G l0 = Inr (Some g0)
                \<and> (\<forall>j<i. \<forall>g. ?G ((P @ [l]) ! j) = Inr (Some g) \<longrightarrow> g < g0))"
  proof (rule disjE[OF S0])
    assume "g0 = - 999 \<and> l0 = (0, 0)" then show ?thesis by blast
  next
    assume "\<exists>i<length P. P ! i = l0 \<and> ?G l0 = Inr (Some g0)
                \<and> (\<forall>j<i. \<forall>g. ?G (P ! j) = Inr (Some g) \<longrightarrow> g < g0)"
    then obtain i where i: "i < length P" "P ! i = l0" "?G l0 = Inr (Some g0)"
       "\<forall>j<i. \<forall>g. ?G (P ! j) = Inr (Some g) \<longrightarrow> g < g0" by blast
    have "\<forall>j<i. \<forall>g. ?G ((P @ [l]) ! j) = Inr (Some g) \<longrightarrow> g < g0"
      using i(1) i(4) by (simp add: nth_append)
    moreover have "i < length (P @ [l])" "(P @ [l]) ! i = l0" using i(1,2) by (simp_all add: nth_append)
    ultimately show ?thesis using i(3) by blast
  qed
  have S1': "(g1 = - 999 \<and> l1 = (0, 0))
          \<or> (\<exists>i<length (P @ [l]). (P @ [l]) ! i = l1 \<and> l1 \<noteq> l0 \<and> ?G l1 = Inr (Some g1)
                \<and> (\<forall>j<i. (P @ [l]) ! j \<noteq> l0 \<longrightarrow>
                      (\<forall>g. ?G ((P @ [l]) ! j) = Inr (Some g) \<longrightarrow> g < g1)))"
  proof (rule disjE[OF S1])
    assume "g1 = - 999 \<and> l1 = (0, 0)" then show ?thesis by blast
  next
    assume "\<exists>i<length P. P ! i = l1 \<and> l1 \<noteq> l0 \<and> ?G l1 = Inr (Some g1)
                \<and> (\<forall>j<i. P ! j \<noteq> l0 \<longrightarrow> (\<forall>g. ?G (P ! j) = Inr (Some g) \<longrightarrow> g < g1))"
    then obtain i where i: "i < length P" "P ! i = l1" "l1 \<noteq> l0" "?G l1 = Inr (Some g1)"
       "\<forall>j<i. P ! j \<noteq> l0 \<longrightarrow> (\<forall>g. ?G (P ! j) = Inr (Some g) \<longrightarrow> g < g1)" by blast
    have "\<forall>j<i. (P @ [l]) ! j \<noteq> l0 \<longrightarrow> (\<forall>g. ?G ((P @ [l]) ! j) = Inr (Some g) \<longrightarrow> g < g1)"
      using i(1) i(5) by (simp add: nth_append)
    moreover have "i < length (P @ [l])" "(P @ [l]) ! i = l1" using i(1,2) by (simp_all add: nth_append)
    ultimately show ?thesis using i(3,4) by blast
  qed
  \<comment> \<open>every earlier candidate has gain at most \<open>g0\<close>, and at most \<open>g1\<close> unless it is \<open>l0\<close>\<close>
  have Aj: "\<forall>j<length P. \<forall>q. ?G ((P @ [l]) ! j) = Inr (Some q) \<longrightarrow> q \<le> g0"
  proof (intro allI impI)
    fix j q assume j: "j < length P" and q: "?G ((P @ [l]) ! j) = Inr (Some q)"
    have "P ! j \<in> set P" using j by simp
    then obtain g' where "?G (P ! j) = Inr (Some g')" "g' \<le> g0" using A by blast
    then show "q \<le> g0" using q j by (simp add: nth_append)
  qed
  have Aj1: "\<forall>j<length P. (P @ [l]) ! j \<noteq> l0 \<longrightarrow> (\<forall>q. ?G ((P @ [l]) ! j) = Inr (Some q) \<longrightarrow> q \<le> g1)"
  proof (intro allI impI)
    fix j q assume j: "j < length P" and n: "(P @ [l]) ! j \<noteq> l0"
      and q: "?G ((P @ [l]) ! j) = Inr (Some q)"
    have "P ! j \<in> set P" "P ! j \<noteq> l0" using j n by (simp_all add: nth_append)
    then obtain g' where "?G (P ! j) = Inr (Some g')" "g' \<le> g1" using A by blast
    then show "q \<le> g1" using q j by (simp add: nth_append)
  qed
  consider (top) "g > g0" | (second) "\<not> g > g0" "g > g1" | (none) "\<not> g > g0" "\<not> g > g1"
    by blast
  then show ?thesis
  proof cases
    case top
    then have G': "interceptor_gains tr' = [g, g0]" and L': "interceptor_deploy_locations tr' = [l, l0]"
      using upd by simp_all
    have B': "- 999 \<le> g0" "g0 \<le> g" using B top by simp_all
    have A': "\<forall>x\<in>set (P @ [l]). \<exists>q. ?G x = Inr (Some q) \<and> q \<le> g \<and> (x \<noteq> l \<longrightarrow> q \<le> g0)"
    proof
      fix x assume "x \<in> set (P @ [l])"
      then consider "x \<in> set P" | "x = l" by auto
      then show "\<exists>q. ?G x = Inr (Some q) \<and> q \<le> g \<and> (x \<noteq> l \<longrightarrow> q \<le> g0)"
      proof cases
        case 1
        then obtain q where "?G x = Inr (Some q)" "q \<le> g0" using A by blast
        then show ?thesis using top by (intro exI[of _ q]) simp
      next
        case 2
        then show ?thesis using g by simp
      qed
    qed
    have T0: "(g = - 999 \<and> l = (0, 0))
          \<or> (\<exists>i<length (P @ [l]). (P @ [l]) ! i = l \<and> ?G l = Inr (Some g)
                \<and> (\<forall>j<i. \<forall>q. ?G ((P @ [l]) ! j) = Inr (Some q) \<longrightarrow> q < g))"
    proof -
      have "\<forall>j<length P. \<forall>q. ?G ((P @ [l]) ! j) = Inr (Some q) \<longrightarrow> q < g"
        using Aj top by fastforce
      then have "length P < length (P @ [l]) \<and> (P @ [l]) ! length P = l \<and> ?G l = Inr (Some g)
                \<and> (\<forall>j<length P. \<forall>q. ?G ((P @ [l]) ! j) = Inr (Some q) \<longrightarrow> q < g)"
        using g by simp
      then show ?thesis by blast
    qed
    have T1: "(g0 = - 999 \<and> l0 = (0, 0))
          \<or> (\<exists>i<length (P @ [l]). (P @ [l]) ! i = l0 \<and> l0 \<noteq> l \<and> ?G l0 = Inr (Some g0)
                \<and> (\<forall>j<i. (P @ [l]) ! j \<noteq> l \<longrightarrow>
                      (\<forall>q. ?G ((P @ [l]) ! j) = Inr (Some q) \<longrightarrow> q < g0)))"
      using S0' l0l by blast
    show ?thesis
      unfolding slots_inv_def
      using G' L' B' A' T0 T1 by blast
  next
    case second
    then have G': "interceptor_gains tr' = [g0, g]" and L': "interceptor_deploy_locations tr' = [l0, l]"
      using upd by simp_all
    have B': "- 999 \<le> g" "g \<le> g0" using B second by simp_all
    have A': "\<forall>x\<in>set (P @ [l]). \<exists>q. ?G x = Inr (Some q) \<and> q \<le> g0 \<and> (x \<noteq> l0 \<longrightarrow> q \<le> g)"
    proof
      fix x assume "x \<in> set (P @ [l])"
      then consider "x \<in> set P" | "x = l" by auto
      then show "\<exists>q. ?G x = Inr (Some q) \<and> q \<le> g0 \<and> (x \<noteq> l0 \<longrightarrow> q \<le> g)"
      proof cases
        case 1
        then obtain q where "?G x = Inr (Some q)" "q \<le> g0" "x \<noteq> l0 \<longrightarrow> q \<le> g1" using A by blast
        then show ?thesis using second by (intro exI[of _ q]) auto
      next
        case 2
        then show ?thesis using g B' by simp
      qed
    qed
    have T1: "(g = - 999 \<and> l = (0, 0))
          \<or> (\<exists>i<length (P @ [l]). (P @ [l]) ! i = l \<and> l \<noteq> l0 \<and> ?G l = Inr (Some g)
                \<and> (\<forall>j<i. (P @ [l]) ! j \<noteq> l0 \<longrightarrow>
                      (\<forall>q. ?G ((P @ [l]) ! j) = Inr (Some q) \<longrightarrow> q < g)))"
    proof -
      have "\<forall>j<length P. (P @ [l]) ! j \<noteq> l0 \<longrightarrow> (\<forall>q. ?G ((P @ [l]) ! j) = Inr (Some q) \<longrightarrow> q < g)"
        using Aj1 second by fastforce
      then have "length P < length (P @ [l]) \<and> (P @ [l]) ! length P = l \<and> l \<noteq> l0 \<and> ?G l = Inr (Some g)
                \<and> (\<forall>j<length P. (P @ [l]) ! j \<noteq> l0 \<longrightarrow> (\<forall>q. ?G ((P @ [l]) ! j) = Inr (Some q) \<longrightarrow> q < g))"
        using g l0l by simp
      then show ?thesis by blast
    qed
    show ?thesis
      unfolding slots_inv_def
      using G' L' B' A' S0' T1 by blast
  next
    case none
    then have G': "interceptor_gains tr' = [g0, g1]" and L': "interceptor_deploy_locations tr' = [l0, l1]"
      using upd by simp_all
    have A': "\<forall>x\<in>set (P @ [l]). \<exists>q. ?G x = Inr (Some q) \<and> q \<le> g0 \<and> (x \<noteq> l0 \<longrightarrow> q \<le> g1)"
    proof
      fix x assume "x \<in> set (P @ [l])"
      then consider "x \<in> set P" | "x = l" by auto
      then show "\<exists>q. ?G x = Inr (Some q) \<and> q \<le> g0 \<and> (x \<noteq> l0 \<longrightarrow> q \<le> g1)"
      proof cases
        case 1
        then show ?thesis using A by blast
      next
        case 2
        then show ?thesis using g none by simp
      qed
    qed
    show ?thesis
      unfolding slots_inv_def
      using G' L' B A' S0' S1' by blast
  qed
qed


lemma slots_inv_loop:
  assumes "candidate_loop gs a b c ls tr = Inr tr'"
    and "slots_inv gs c P tr"
    and "distinct (P @ ls)" and "(0, 0) \<notin> set ls"
  shows "slots_inv gs c (P @ ls) tr'"
  using assms
proof (induction ls arbitrary: P tr)
  case Nil
  then show ?case by simp
next
  case (Cons l ls)
  obtain tr1 where b: "loop_body gs a b c l tr = Inr tr1"
    and r: "candidate_loop gs a b c ls tr1 = Inr tr'"
    using Cons.prems(1) by (cases "loop_body gs a b c l tr") simp_all
  have "l \<notin> set P" "l \<noteq> (0, 0)"
    using Cons.prems(3,4) by auto
  then have "slots_inv gs c (P @ [l]) tr1"
    by (rule slots_inv_step[OF Cons.prems(2) b])
  moreover have "distinct ((P @ [l]) @ ls)" "(0, 0) \<notin> set ls"
    using Cons.prems(3,4) by simp_all
  ultimately have "slots_inv gs c ((P @ [l]) @ ls) tr'"
    using Cons.IH[OF r] by blast
  then show ?case by simp
qed

text \<open>
  C8 (amended). Let the deploy locations be pairwise distinct and not contain the
  placeholder \<open>(0, 0)\<close>. After any number \<open>k\<close> of loop iterations (so at every point
  during the loop, and after it): the two interceptor slots hold different locations, or
  both still hold the initial placeholder \<open>(0, 0)\<close> with gain \<open>- 999\<close> (as they do
  before the first candidate whose gain exceeds \<open>- 999\<close>). The slots rank the processed
  candidates by gain with strict comparisons: every processed candidate's gain is at most
  slot 0's, and at most slot 1's unless it is slot 0's location; a filled slot holds the
  earliest candidate of its gain (for slot 1: among those other than slot 0's location).
  The combo uses slot 0 unless slot 0's location equals the chosen demolisher location,
  in which case it uses slot 1.
\<close>

theorem interceptor_slots:
  assumes d: "distinct ls" and z: "(0, 0) \<notin> set ls"
    and loop: "candidate_loop gs a b c (take k ls) init_tracker = Inr tr"
  shows "\<exists>g0 g1 l0 l1.
        interceptor_gains tr = [g0, g1] \<and> interceptor_deploy_locations tr = [l0, l1]
      \<and> (l0 \<noteq> l1 \<or> (l0 = (0, 0) \<and> l1 = (0, 0) \<and> g0 = - 999 \<and> g1 = - 999))
      \<and> g1 \<le> g0
      \<and> (\<forall>x\<in>set (take k ls). \<exists>g. gain_of_attack gs c INTERCEPTOR x = Inr (Some g)
                          \<and> g \<le> g0 \<and> (x \<noteq> l0 \<longrightarrow> g \<le> g1))
      \<and> ((g0 = - 999 \<and> l0 = (0, 0))
          \<or> (\<exists>i<length (take k ls). take k ls ! i = l0
                \<and> gain_of_attack gs c INTERCEPTOR l0 = Inr (Some g0)
                \<and> (\<forall>j<i. \<forall>g. gain_of_attack gs c INTERCEPTOR (take k ls ! j) = Inr (Some g)
                              \<longrightarrow> g < g0)))
      \<and> ((g1 = - 999 \<and> l1 = (0, 0))
          \<or> (\<exists>i<length (take k ls). take k ls ! i = l1 \<and> l1 \<noteq> l0
                \<and> gain_of_attack gs c INTERCEPTOR l1 = Inr (Some g1)
                \<and> (\<forall>j<i. take k ls ! j \<noteq> l0 \<longrightarrow>
                      (\<forall>g. gain_of_attack gs c INTERCEPTOR (take k ls ! j) = Inr (Some g)
                             \<longrightarrow> g < g1))))
      \<and> (\<forall>dl. demolisher_deploy_location tr = Some dl \<longrightarrow>
             location_index_of tr = Inr (if l0 = dl then 1 else 0)
           \<and> spawn_combo tr (if l0 = dl then 1 else 0) b c
               = Inr [Spawn DEMOLISHER dl b, Spawn INTERCEPTOR (if l0 = dl then l1 else l0) c])"
proof -
  let ?P = "take k ls"
  let ?G = "\<lambda>x. gain_of_attack gs c INTERCEPTOR x"
  have "distinct ([] @ ?P)" "(0, 0) \<notin> set ?P"
    using d z by (auto dest: in_set_takeD)
  from slots_inv_loop[OF loop slots_inv_init this]
  have "slots_inv gs c ?P tr" by simp
  then obtain g0 g1 l0 l1 where
    G: "interceptor_gains tr = [g0, g1]" and L: "interceptor_deploy_locations tr = [l0, l1]"
    and B: "- 999 \<le> g1" "g1 \<le> g0"
    and A: "\<forall>x\<in>set ?P. \<exists>g. ?G x = Inr (Some g) \<and> g \<le> g0 \<and> (x \<noteq> l0 \<longrightarrow> g \<le> g1)"
    and S0: "(g0 = - 999 \<and> l0 = (0, 0))
          \<or> (\<exists>i<length ?P. ?P ! i = l0 \<and> ?G l0 = Inr (Some g0)
                \<and> (\<forall>j<i. \<forall>g. ?G (?P ! j) = Inr (Some g) \<longrightarrow> g < g0))"
    and S1: "(g1 = - 999 \<and> l1 = (0, 0))
          \<or> (\<exists>i<length ?P. ?P ! i = l1 \<and> l1 \<noteq> l0 \<and> ?G l1 = Inr (Some g1)
                \<and> (\<forall>j<i. ?P ! j \<noteq> l0 \<longrightarrow> (\<forall>g. ?G (?P ! j) = Inr (Some g) \<longrightarrow> g < g1)))"
    unfolding slots_inv_def by blast
  have D: "l0 \<noteq> l1 \<or> (l0 = (0, 0) \<and> l1 = (0, 0) \<and> g0 = - 999 \<and> g1 = - 999)"
  proof (cases "g1 = - 999 \<and> l1 = (0, 0)")
    case True
    show ?thesis
    proof (cases "g0 = - 999 \<and> l0 = (0, 0)")
      case True
      then show ?thesis using \<open>g1 = - 999 \<and> l1 = (0, 0)\<close> by simp
    next
      case False
      then obtain i where "i < length ?P" "?P ! i = l0" using S0 by blast
      then have "l0 \<in> set ?P" by (metis nth_mem)
      then have "l0 \<noteq> (0, 0)" using \<open>(0, 0) \<notin> set ?P\<close> by auto
      then show ?thesis using True by simp
    qed
  next
    case False
    then show ?thesis using S1 by blast
  qed
  have E: "\<forall>dl. demolisher_deploy_location tr = Some dl \<longrightarrow>
             location_index_of tr = Inr (if l0 = dl then 1 else 0)
           \<and> spawn_combo tr (if l0 = dl then 1 else 0) b c
               = Inr [Spawn DEMOLISHER dl b, Spawn INTERCEPTOR (if l0 = dl then l1 else l0) c]"
    by (simp add: location_index_of_def spawn_combo_def L)
  show ?thesis
    using G L D B(2) A S0 S1 E by blast
qed


theorem interceptor_slots_witness:
  "distinct (deploy_locations_of quiet_state)
   \<and> (0, 0) \<notin> set (deploy_locations_of quiet_state)
   \<and> candidate_loop quiet_state 5 0 2 (take 3 (deploy_locations_of quiet_state)) init_tracker
       = Inr \<lparr>scout_gain = 72, scout_deploy_location = Some (13, 0),
         demolisher_gain = 12, demolisher_deploy_location = Some (13, 0),
         interceptor_gains = [36, 36],
         interceptor_deploy_locations = [(13, 0), (12, 1)]\<rparr>
   \<and> (\<exists>g0 g1 l0 l1.
        interceptor_gains
          \<lparr>scout_gain = 72, scout_deploy_location = Some (13, 0),
         demolisher_gain = 12, demolisher_deploy_location = Some (13, 0),
         interceptor_gains = [36, 36],
         interceptor_deploy_locations = [(13, 0), (12, 1)]\<rparr> = [g0, g1] \<and> interceptor_deploy_locations
          \<lparr>scout_gain = 72, scout_deploy_location = Some (13, 0),
         demolisher_gain = 12, demolisher_deploy_location = Some (13, 0),
         interceptor_gains = [36, 36],
         interceptor_deploy_locations = [(13, 0), (12, 1)]\<rparr> = [l0, l1]
      \<and> (l0 \<noteq> l1 \<or> (l0 = (0, 0) \<and> l1 = (0, 0) \<and> g0 = - 999 \<and> g1 = - 999))
      \<and> g1 \<le> g0
      \<and> (\<forall>x\<in>set (take 3 (deploy_locations_of quiet_state)). \<exists>g. gain_of_attack quiet_state 2 INTERCEPTOR x = Inr (Some g)
                          \<and> g \<le> g0 \<and> (x \<noteq> l0 \<longrightarrow> g \<le> g1))
      \<and> ((g0 = - 999 \<and> l0 = (0, 0))
          \<or> (\<exists>i<length (take 3 (deploy_locations_of quiet_state)). take 3 (deploy_locations_of quiet_state) ! i = l0
                \<and> gain_of_attack quiet_state 2 INTERCEPTOR l0 = Inr (Some g0)
                \<and> (\<forall>j<i. \<forall>g. gain_of_attack quiet_state 2 INTERCEPTOR (take 3 (deploy_locations_of quiet_state) ! j) = Inr (Some g)
                              \<longrightarrow> g < g0)))
      \<and> ((g1 = - 999 \<and> l1 = (0, 0))
          \<or> (\<exists>i<length (take 3 (deploy_locations_of quiet_state)). take 3 (deploy_locations_of quiet_state) ! i = l1 \<and> l1 \<noteq> l0
                \<and> gain_of_attack quiet_state 2 INTERCEPTOR l1 = Inr (Some g1)
                \<and> (\<forall>j<i. take 3 (deploy_locations_of quiet_state) ! j \<noteq> l0 \<longrightarrow>
                      (\<forall>g. gain_of_attack quiet_state 2 INTERCEPTOR (take 3 (deploy_locations_of quiet_state) ! j) = Inr (Some g)
                             \<longrightarrow> g < g1))))
      \<and> (\<forall>dl. demolisher_deploy_location
          \<lparr>scout_gain = 72, scout_deploy_location = Some (13, 0),
         demolisher_gain = 12, demolisher_deploy_location = Some (13, 0),
         interceptor_gains = [36, 36],
         interceptor_deploy_locations = [(13, 0), (12, 1)]\<rparr> = Some dl \<longrightarrow>
             location_index_of
          \<lparr>scout_gain = 72, scout_deploy_location = Some (13, 0),
         demolisher_gain = 12, demolisher_deploy_location = Some (13, 0),
         interceptor_gains = [36, 36],
         interceptor_deploy_locations = [(13, 0), (12, 1)]\<rparr> = Inr (if l0 = dl then 1 else 0)
           \<and> spawn_combo
          \<lparr>scout_gain = 72, scout_deploy_location = Some (13, 0),
         demolisher_gain = 12, demolisher_deploy_location = Some (13, 0),
         interceptor_gains = [36, 36],
         interceptor_deploy_locations = [(13, 0), (12, 1)]\<rparr> (if l0 = dl then 1 else 0) 0 2
               = Inr [Spawn DEMOLISHER dl 0, Spawn INTERCEPTOR (if l0 = dl then l1 else l0) 2]))"
proof -
  have d: "distinct (deploy_locations_of quiet_state)"
    by code_simp
  have z: "(0, 0) \<notin> set (deploy_locations_of quiet_state)"
    by code_simp
  have l: "candidate_loop quiet_state 5 0 2 (take 3 (deploy_locations_of quiet_state)) init_tracker
       = Inr \<lparr>scout_gain = 72, scout_deploy_location = Some (13, 0),
         demolisher_gain = 12, demolisher_deploy_location = Some (13, 0),
         interceptor_gains = [36, 36],
         interceptor_deploy_locations = [(13, 0), (12, 1)]\<rparr>"
    by code_simp
  show ?thesis
    using d z l interceptor_slots [OF d z l] by blast
qed

theorem interceptor_slots_counterexample:
  "deploy_locations_of blocked_state = []
   \<and> candidate_loop blocked_state (number_affordable blocked_state SCOUT)
        (number_affordable blocked_state DEMOLISHER div 2)
        (number_affordable blocked_state INTERCEPTOR div 2)
        (deploy_locations_of blocked_state) init_tracker = Inr init_tracker
   \<and> interceptor_deploy_locations init_tracker ! 0 = (0, 0)
   \<and> interceptor_deploy_locations init_tracker ! 1 = (0, 0)
   \<and> interceptor_deploy_locations init_tracker ! 0 = interceptor_deploy_locations init_tracker ! 1"
  by code_simp

end
